theory Spec2Isabelle
  imports Main "HOL-Library.Log_Nat" "HOL-Library.Sublist" "HOL-Library.AList"
begin

section \<open>Python values and the builtins the dashboard validator calls\<close>

text \<open>
  The validator of \<^verbatim>\<open>analyse_insights.py\<close> works on whatever \<^verbatim>\<open>json.loads\<close> returns:
  \<^verbatim>\<open>None\<close>, a bool, an unbounded int, a float, a str, a list or a dict with str keys.
  A dict keeps insertion order, so it is an association list; \<^verbatim>\<open>d[k] = v\<close> is
  \<open>AList.update\<close> (an existing key keeps its place, a new key goes to the end) and
  \<^verbatim>\<open>d[k]\<close> is \<open>map_of\<close>. A float is a binary64 value: a finite one is carried as the
  rational it denotes (both zeros are the rational 0), beside the infinities and NaN.
  A \<open>char\<close> stands for one code point below 256.
\<close>

datatype pyfloat = Finite rat | PosInf | NegInf | NaN

datatype pyval =
    PNone
  | PBool bool
  | PInt int
  | PFloat pyfloat
  | PStr string
  | PList "pyval list"
  | PDict "(string \<times> pyval) list"

datatype py_error =
    TypeError | ValueError | OverflowError | AttributeError | KeyError
  | RecursionError | UnicodeEncodeError | OSError

text \<open>
  \<^verbatim>\<open>float(s)\<close> and \<^verbatim>\<open>int(s)\<close> of a str are the interpreter's own parsers; the validator
  only depends on whether they return a number or raise \<^verbatim>\<open>ValueError\<close> (\<open>None\<close>).
  They are taken as parameters.
\<close>

record pylib =
  str_to_float :: "string \<Rightarrow> pyfloat option"
  str_to_int :: "string \<Rightarrow> int option"

definition and_then :: "py_error + 'a \<Rightarrow> ('a \<Rightarrow> py_error + 'b) \<Rightarrow> py_error + 'b" where
  "and_then m f = (case m of Inl e \<Rightarrow> Inl e | Inr x \<Rightarrow> f x)"

text \<open>\<^verbatim>\<open>try: ... except (ValueError, TypeError): <default>\<close>; any other exception goes on.\<close>

definition except_value_type :: "py_error + 'a \<Rightarrow> 'a \<Rightarrow> py_error + 'a" where
  "except_value_type m dflt =
     (case m of Inl e \<Rightarrow> (if e = ValueError \<or> e = TypeError then Inr dflt else Inl e)
              | Inr x \<Rightarrow> Inr x)"

subsection \<open>Binary64 rounding\<close>

text \<open>
  Round-half-even to an integer (what \<^verbatim>\<open>round(x)\<close> does on the exact value of a float),
  and round-to-nearest-even to 53 significant bits. \<open>fp_round\<close> is only applied to
  values that are 0 or of magnitude between \<open>2\<^sup>-\<^sup>1\<^sup>0\<^sup>2\<^sup>2\<close> and the largest float, where
  binary64 has exactly 53 bits: quotients \<^verbatim>\<open>100 / total\<close> with \<open>0 < total \<le> 300\<close>, products
  of those with an int of \<open>[0, 100]\<close>, ints below the overflow threshold, and decimals
  \<open>k / 10\<^sup>n\<close> with an integer \<open>k\<close>.
\<close>

definition round_half_even :: "rat \<Rightarrow> int" where
  "round_half_even q =
     (let f = \<lfloor>q\<rfloor>; r = q - of_int f
      in if r < 1 / 2 then f else if 1 / 2 < r then f + 1 else if even f then f else f + 1)"

definition pow2 :: "int \<Rightarrow> rat" where
  "pow2 k = (if 0 \<le> k then 2 ^ nat k else 1 / 2 ^ nat (- k))"

definition ilog2 :: "rat \<Rightarrow> int" where
  "ilog2 q =
     (case quotient_of \<bar>q\<bar> of (n, d) \<Rightarrow>
        let k = bitlen n - bitlen d in if pow2 k \<le> \<bar>q\<bar> then k else k - 1)"

definition fp_round :: "rat \<Rightarrow> rat" where
  "fp_round q =
     (if q = 0 then 0
      else let e = ilog2 q - 52 in of_int (round_half_even (q / pow2 e)) * pow2 e)"

text \<open>
  \<^verbatim>\<open>float(n)\<close> of an int: correctly rounded, \<^verbatim>\<open>OverflowError\<close> when the int rounds past
  the largest float, that is from \<open>2\<^sup>1\<^sup>0\<^sup>2\<^sup>4 - 2\<^sup>9\<^sup>7\<^sup>0\<close> on.
\<close>

definition int_to_float :: "int \<Rightarrow> py_error + rat" where
  "int_to_float n =
     (if 2 ^ 1024 - 2 ^ 970 \<le> \<bar>n\<bar> then Inl OverflowError
      else Inr (fp_round (of_int n)))"

fun py_float :: "pylib \<Rightarrow> pyval \<Rightarrow> py_error + pyfloat" where
  "py_float L (PInt n) = and_then (int_to_float n) (\<lambda>q. Inr (Finite q))"
| "py_float L (PBool b) = Inr (Finite (if b then 1 else 0))"
| "py_float L (PFloat f) = Inr f"
| "py_float L (PStr s) = (case str_to_float L s of None \<Rightarrow> Inl ValueError | Some f \<Rightarrow> Inr f)"
| "py_float L PNone = Inl TypeError"
| "py_float L (PList xs) = Inl TypeError"
| "py_float L (PDict kvs) = Inl TypeError"

text \<open>
  \<^verbatim>\<open>round(x, ndigits)\<close> of a float: the exact value rounded half-even to \<open>ndigits\<close>
  decimals, then the nearest float to that decimal; infinities and NaN are returned.
\<close>

fun py_round_digits :: "pyfloat \<Rightarrow> nat \<Rightarrow> pyfloat" where
  "py_round_digits (Finite q) nd =
     Finite (fp_round (of_int (round_half_even (q * 10 ^ nd)) / 10 ^ nd))"
| "py_round_digits PosInf nd = PosInf"
| "py_round_digits NegInf nd = NegInf"
| "py_round_digits NaN nd = NaN"

text \<open>\<^verbatim>\<open>round(x)\<close> of a float gives an int, and raises on NaN and on the infinities.\<close>

fun py_round :: "pyfloat \<Rightarrow> py_error + int" where
  "py_round (Finite q) = Inr (round_half_even q)"
| "py_round NaN = Inl ValueError"
| "py_round PosInf = Inl OverflowError"
| "py_round NegInf = Inl OverflowError"

text \<open>\<^verbatim>\<open>x < y\<close> on floats: every comparison with NaN is false.\<close>

fun float_less :: "pyfloat \<Rightarrow> pyfloat \<Rightarrow> bool" where
  "float_less NaN y = False"
| "float_less x NaN = False"
| "float_less PosInf y = False"
| "float_less x NegInf = False"
| "float_less NegInf y = True"
| "float_less x PosInf = True"
| "float_less (Finite a) (Finite b) = (a < b)"

text \<open>
  \<^verbatim>\<open>min(a, b)\<close> and \<^verbatim>\<open>max(a, b)\<close> return the first argument unless the second is
  strictly smaller (larger).
\<close>

definition py_min :: "pyfloat \<Rightarrow> pyfloat \<Rightarrow> pyfloat" where
  "py_min a b = (if float_less b a then b else a)"

definition py_max :: "pyfloat \<Rightarrow> pyfloat \<Rightarrow> pyfloat" where
  "py_max a b = (if float_less a b then b else a)"

text \<open>\<^verbatim>\<open>int(x)\<close>: a float is truncated towards zero.\<close>

fun py_int :: "pylib \<Rightarrow> pyval \<Rightarrow> py_error + int" where
  "py_int L (PInt n) = Inr n"
| "py_int L (PBool b) = Inr (if b then 1 else 0)"
| "py_int L (PFloat (Finite q)) = Inr (if 0 \<le> q then \<lfloor>q\<rfloor> else \<lceil>q\<rceil>)"
| "py_int L (PFloat NaN) = Inl ValueError"
| "py_int L (PFloat PosInf) = Inl OverflowError"
| "py_int L (PFloat NegInf) = Inl OverflowError"
| "py_int L (PStr s) = (case str_to_int L s of None \<Rightarrow> Inl ValueError | Some n \<Rightarrow> Inr n)"
| "py_int L PNone = Inl TypeError"
| "py_int L (PList xs) = Inl TypeError"
| "py_int L (PDict kvs) = Inl TypeError"

subsection \<open>Containers\<close>

text \<open>
  \<^verbatim>\<open>key in obj\<close> for a str \<open>key\<close>: a key test on a dict, an element test on a list, a
  substring test on a str, and \<^verbatim>\<open>TypeError\<close> on anything else.
\<close>

fun py_in :: "string \<Rightarrow> pyval \<Rightarrow> py_error + bool" where
  "py_in key (PDict kvs) = Inr (map_of kvs key \<noteq> None)"
| "py_in key (PList xs) = Inr (PStr key \<in> set xs)"
| "py_in key (PStr s) = Inr (sublist key s)"
| "py_in key PNone = Inl TypeError"
| "py_in key (PBool b) = Inl TypeError"
| "py_in key (PInt n) = Inl TypeError"
| "py_in key (PFloat f) = Inl TypeError"

text \<open>\<^verbatim>\<open>obj[key]\<close> for a str \<open>key\<close>: only a dict can be indexed by a str.\<close>

fun py_getitem :: "pyval \<Rightarrow> string \<Rightarrow> py_error + pyval" where
  "py_getitem (PDict kvs) key = (case map_of kvs key of None \<Rightarrow> Inl KeyError | Some v \<Rightarrow> Inr v)"
| "py_getitem PNone key = Inl TypeError"
| "py_getitem (PBool b) key = Inl TypeError"
| "py_getitem (PInt n) key = Inl TypeError"
| "py_getitem (PFloat f) key = Inl TypeError"
| "py_getitem (PStr s) key = Inl TypeError"
| "py_getitem (PList xs) key = Inl TypeError"

text \<open>
  \<^verbatim>\<open>obj[key] = v\<close>. The candidate is a tree built by \<^verbatim>\<open>json.loads\<close>, without sharing, so
  an assignment inside a nested dict is the update of that dict written back into its
  parent.
\<close>

fun py_setitem :: "pyval \<Rightarrow> string \<Rightarrow> pyval \<Rightarrow> py_error + pyval" where
  "py_setitem (PDict kvs) key v = Inr (PDict (AList.update key v kvs))"
| "py_setitem PNone key v = Inl TypeError"
| "py_setitem (PBool b) key v = Inl TypeError"
| "py_setitem (PInt n) key v = Inl TypeError"
| "py_setitem (PFloat f) key v = Inl TypeError"
| "py_setitem (PStr s) key v = Inl TypeError"
| "py_setitem (PList xs) key v = Inl TypeError"

text \<open>\<^verbatim>\<open>obj.get(key, default)\<close>: only a dict has the method.\<close>

fun py_get :: "pyval \<Rightarrow> string \<Rightarrow> pyval \<Rightarrow> py_error + pyval" where
  "py_get (PDict kvs) key dflt = (case map_of kvs key of None \<Rightarrow> Inr dflt | Some v \<Rightarrow> Inr v)"
| "py_get PNone key dflt = Inl AttributeError"
| "py_get (PBool b) key dflt = Inl AttributeError"
| "py_get (PInt n) key dflt = Inl AttributeError"
| "py_get (PFloat f) key dflt = Inl AttributeError"
| "py_get (PStr s) key dflt = Inl AttributeError"
| "py_get (PList xs) key dflt = Inl AttributeError"

fun py_len :: "pyval \<Rightarrow> py_error + nat" where
  "py_len (PList xs) = Inr (length xs)"
| "py_len (PStr s) = Inr (length s)"
| "py_len (PDict kvs) = Inr (length kvs)"
| "py_len PNone = Inl TypeError"
| "py_len (PBool b) = Inl TypeError"
| "py_len (PInt n) = Inl TypeError"
| "py_len (PFloat f) = Inl TypeError"

text \<open>
  \<^verbatim>\<open>obj[:n]\<close>: the first \<open>n\<close> items of a list or a str. A dict cannot be sliced (the
  exception is \<^verbatim>\<open>TypeError\<close> up to Python 3.11 and \<^verbatim>\<open>KeyError\<close> from 3.12 on; neither is
  caught by the validator).
\<close>

fun py_slice :: "pyval \<Rightarrow> nat \<Rightarrow> py_error + pyval" where
  "py_slice (PList xs) n = Inr (PList (take n xs))"
| "py_slice (PStr s) n = Inr (PStr (take n s))"
| "py_slice (PDict kvs) n = Inl TypeError"
| "py_slice PNone n = Inl TypeError"
| "py_slice (PBool b) n = Inl TypeError"
| "py_slice (PInt i) n = Inl TypeError"
| "py_slice (PFloat f) n = Inl TypeError"

text \<open>
  \<^verbatim>\<open>for x in obj\<close>: the items of a list, the keys of a dict, the one-character strs of a
  str.
\<close>

fun py_iter :: "pyval \<Rightarrow> py_error + pyval list" where
  "py_iter (PList xs) = Inr xs"
| "py_iter (PDict kvs) = Inr (map (\<lambda>kv. PStr (fst kv)) kvs)"
| "py_iter (PStr s) = Inr (map (\<lambda>c. PStr [c]) s)"
| "py_iter PNone = Inl TypeError"
| "py_iter (PBool b) = Inl TypeError"
| "py_iter (PInt n) = Inl TypeError"
| "py_iter (PFloat f) = Inl TypeError"

text \<open>A loop body run over a list, stopping at the first exception.\<close>

fun map_err :: "('a \<Rightarrow> py_error + 'b) \<Rightarrow> 'a list \<Rightarrow> py_error + 'b list" where
  "map_err f [] = Inr []"
| "map_err f (x # xs) =
     and_then (f x) (\<lambda>y. and_then (map_err f xs) (\<lambda>ys. Inr (y # ys)))"

fun fold_err :: "('s \<Rightarrow> 'k \<Rightarrow> py_error + 's) \<Rightarrow> 'k list \<Rightarrow> 's \<Rightarrow> py_error + 's" where
  "fold_err f [] s = Inr s"
| "fold_err f (k # ks) s = and_then (f s k) (fold_err f ks)"

section \<open>The field repairs of \<^verbatim>\<open>analyze_insights\<close>\<close>

text \<open>
  Lines 211 to 281 of \<^verbatim>\<open>analyse_insights.py\<close>, one definition per \<^verbatim>\<open>if\<close> statement, in
  the order of the source. Each takes the candidate \<^verbatim>\<open>dashboard_json\<close> and returns it
  repaired, or the exception that leaves the \<^verbatim>\<open>try\<close> block: only
  \<^verbatim>\<open>json.JSONDecodeError\<close> is caught there, and no repair raises it.
\<close>

subsection \<open>Numeric coercions\<close>

text \<open>\<^verbatim>\<open>max(0.0, min(10.0, round(float(v), 1)))\<close>, and \<^verbatim>\<open>0.0\<close> on ValueError or TypeError.\<close>

definition coerce_pain_index :: "pylib \<Rightarrow> pyval \<Rightarrow> py_error + pyval" where
  "coerce_pain_index L v =
     except_value_type
       (and_then (py_float L v) (\<lambda>f.
          Inr (PFloat (py_max (Finite 0) (py_min (Finite 10) (py_round_digits f 1))))))
       (PFloat (Finite 0))"

text \<open>\<^verbatim>\<open>max(0.0, min(5.0, round(float(v), 2)))\<close>, and \<^verbatim>\<open>0.0\<close> on ValueError or TypeError.\<close>

definition coerce_star_rating :: "pylib \<Rightarrow> pyval \<Rightarrow> py_error + pyval" where
  "coerce_star_rating L v =
     except_value_type
       (and_then (py_float L v) (\<lambda>f.
          Inr (PFloat (py_max (Finite 0) (py_min (Finite 5) (py_round_digits f 2))))))
       (PFloat (Finite 0))"

text \<open>\<^verbatim>\<open>max(0, min(100, int(round(float(v)))))\<close>, and \<^verbatim>\<open>0\<close> on ValueError or TypeError.\<close>

definition coerce_percent :: "pylib \<Rightarrow> pyval \<Rightarrow> py_error + pyval" where
  "coerce_percent L v =
     except_value_type
       (and_then (py_float L v) (\<lambda>f.
          and_then (py_round f) (\<lambda>i. Inr (PInt (max 0 (min 100 i))))))
       (PInt 0)"

text \<open>\<^verbatim>\<open>max(0, int(v))\<close>, and \<^verbatim>\<open>0\<close> on ValueError or TypeError.\<close>

definition coerce_count :: "pylib \<Rightarrow> pyval \<Rightarrow> py_error + pyval" where
  "coerce_count L v =
     except_value_type (and_then (py_int L v) (\<lambda>i. Inr (PInt (max 0 i)))) (PInt 0)"

subsection \<open>\<^verbatim>\<open>pain_index\<close> and \<^verbatim>\<open>header.star_rating\<close> (lines 211 to 221)\<close>

text \<open>
  The pattern of \<^verbatim>\<open>pain_index\<close>, of the three sentiment keys and of \<^verbatim>\<open>percent\<close>:
  \<^verbatim>\<open>if key in obj and obj[key] is not None\<close>, then \<^verbatim>\<open>obj[key]\<close> becomes the coerced value
  (the \<^verbatim>\<open>try\<close> and its \<^verbatim>\<open>except\<close> are inside \<open>coerce\<close>).
\<close>

definition fix_number ::
  "(pyval \<Rightarrow> py_error + pyval) \<Rightarrow> string \<Rightarrow> pyval \<Rightarrow> py_error + pyval" where
  "fix_number coerce key obj =
     and_then (py_in key obj) (\<lambda>present.
       if \<not> present then Inr obj
       else and_then (py_getitem obj key) (\<lambda>v.
         if v = PNone then Inr obj
         else and_then (coerce v) (\<lambda>x. py_setitem obj key x)))"

definition fix_pain_index :: "pylib \<Rightarrow> pyval \<Rightarrow> py_error + pyval" where
  "fix_pain_index L d = fix_number (coerce_pain_index L) ''pain_index'' d"

text \<open>
  The pattern of the two numeric header fields:
  \<^verbatim>\<open>if "header" in d and key in d["header"] and d["header"][key] is not None\<close>, then the
  coerced value is stored in \<^verbatim>\<open>d["header"][key]\<close>.
\<close>

definition fix_header_number ::
  "(pyval \<Rightarrow> py_error + pyval) \<Rightarrow> string \<Rightarrow> pyval \<Rightarrow> py_error + pyval" where
  "fix_header_number coerce key d =
     and_then (py_in ''header'' d) (\<lambda>present.
       if \<not> present then Inr d
       else and_then (py_getitem d ''header'') (\<lambda>h.
         and_then (py_in key h) (\<lambda>present'.
           if \<not> present' then Inr d
           else and_then (py_getitem h key) (\<lambda>v.
             if v = PNone then Inr d
             else and_then (coerce v) (\<lambda>x.
               and_then (py_setitem h key x) (\<lambda>h'. py_setitem d ''header'' h'))))))"

definition fix_star_rating :: "pylib \<Rightarrow> pyval \<Rightarrow> py_error + pyval" where
  "fix_star_rating L = fix_header_number (coerce_star_rating L) ''star_rating''"

subsection \<open>Sentiment percentages (lines 224 to 239)\<close>

text \<open>The body of \<^verbatim>\<open>for key in ["negative", "neutral", "positive"]\<close>.\<close>

definition clamp_sentiment_key :: "pylib \<Rightarrow> pyval \<Rightarrow> string \<Rightarrow> py_error + pyval" where
  "clamp_sentiment_key L sent key = fix_number (coerce_percent L) key sent"

text \<open>
  \<^verbatim>\<open>x + y\<close> in the total. After the loop each of the three values is \<^verbatim>\<open>None\<close> or an int
  (lemma \<open>clamped_triple_values\<close> below) and a missing one is the default \<open>0\<close>, so
  the sum is an int or \<^verbatim>\<open>None + int\<close>, a TypeError. The last equation stands for that
  TypeError; no other pair of operands reaches it.
\<close>

fun py_add_int :: "pyval \<Rightarrow> pyval \<Rightarrow> py_error + int" where
  "py_add_int (PInt a) (PInt b) = Inr (a + b)"
| "py_add_int x y = Inl TypeError"

text \<open>
  \<^verbatim>\<open>int(round(v * scale))\<close> for the int \<open>v\<close> read back from the dict and the float
  \<open>scale\<close>: the int is converted to a float, the product is rounded to a float, and
  \<^verbatim>\<open>round\<close> rounds that half-even to an int.
\<close>

fun scaled :: "pyval \<Rightarrow> rat \<Rightarrow> py_error + int" where
  "scaled (PInt a) scale =
     and_then (int_to_float a) (\<lambda>x. Inr (round_half_even (fp_round (x * scale))))"
| "scaled v scale = Inl TypeError"

text \<open>
  Lines 236 to 239; \<open>tot\<close> is the source's \<^verbatim>\<open>total\<close> and \<^verbatim>\<open>100 / total\<close> is the
  correctly rounded quotient of two ints. \<^verbatim>\<open>sent["positive"]\<close> is computed from the two values just stored.
\<close>

definition renormalize :: "pyval \<Rightarrow> int \<Rightarrow> py_error + pyval" where
  "renormalize sent tot =
     (let scale = fp_round (100 / of_int tot) in
      and_then (py_get sent ''negative'' (PInt 0)) (\<lambda>a.
      and_then (scaled a scale) (\<lambda>n.
      and_then (py_setitem sent ''negative'' (PInt n)) (\<lambda>sent1.
      and_then (py_get sent1 ''neutral'' (PInt 0)) (\<lambda>b.
      and_then (scaled b scale) (\<lambda>u.
      and_then (py_setitem sent1 ''neutral'' (PInt u)) (\<lambda>sent2.
      py_setitem sent2 ''positive'' (PInt (100 - n - u)))))))))"

definition repair_sentiment :: "pylib \<Rightarrow> pyval \<Rightarrow> py_error + pyval" where
  "repair_sentiment L sent =
     and_then (fold_err (clamp_sentiment_key L) [''negative'', ''neutral'', ''positive''] sent)
       (\<lambda>s.
     and_then (py_get s ''negative'' (PInt 0)) (\<lambda>a.
     and_then (py_get s ''neutral'' (PInt 0)) (\<lambda>b.
     and_then (py_get s ''positive'' (PInt 0)) (\<lambda>c.
     and_then (py_add_int a b) (\<lambda>ab.
     and_then (py_add_int (PInt ab) c) (\<lambda>tot.
       if tot \<noteq> 100 \<and> 0 < tot then renormalize s tot else Inr s))))))"

definition fix_sentiment :: "pylib \<Rightarrow> pyval \<Rightarrow> py_error + pyval" where
  "fix_sentiment L d =
     and_then (py_in ''sentiment'' d) (\<lambda>present.
       if \<not> present then Inr d
       else and_then (py_getitem d ''sentiment'') (\<lambda>sent.
         and_then (repair_sentiment L sent) (\<lambda>sent'. py_setitem d ''sentiment'' sent')))"

subsection \<open>Problem distribution percentages (lines 242 to 248)\<close>

definition fix_problem :: "pylib \<Rightarrow> pyval \<Rightarrow> py_error + pyval" where
  "fix_problem L prob = fix_number (coerce_percent L) ''percent'' prob"

text \<open>
  The loop changes the dicts that are items of the list. When the value is a dict or a
  str the loop runs over strs, which it can only leave alone or fail on.
\<close>

definition fix_problem_distribution :: "pylib \<Rightarrow> pyval \<Rightarrow> py_error + pyval" where
  "fix_problem_distribution L d =
     and_then (py_in ''problem_distribution'' d) (\<lambda>present.
       if \<not> present then Inr d
       else and_then (py_getitem d ''problem_distribution'') (\<lambda>pd.
         and_then (py_iter pd) (\<lambda>items.
         and_then (map_err (fix_problem L) items) (\<lambda>items'.
           case pd of PList xs \<Rightarrow> py_setitem d ''problem_distribution'' (PList items')
                    | _ \<Rightarrow> Inr d))))"

subsection \<open>Array lengths (lines 251 to 265)\<close>

text \<open>\<^verbatim>\<open>if key in d and len(d[key]) > n: d[key] = d[key][:n]\<close>\<close>

definition truncate_field :: "string \<Rightarrow> nat \<Rightarrow> pyval \<Rightarrow> py_error + pyval" where
  "truncate_field key n d =
     and_then (py_in key d) (\<lambda>present.
       if \<not> present then Inr d
       else and_then (py_getitem d key) (\<lambda>v.
         and_then (py_len v) (\<lambda>l.
           if n < l then and_then (py_slice v n) (\<lambda>v'. py_setitem d key v')
           else Inr d)))"

definition truncate_samples :: "pyval \<Rightarrow> py_error + pyval" where
  "truncate_samples d =
     and_then (py_in ''sentiment'' d) (\<lambda>present.
       if \<not> present then Inr d
       else and_then (py_getitem d ''sentiment'') (\<lambda>sent.
         and_then (truncate_field ''samples'' 4 sent) (\<lambda>sent'.
           py_setitem d ''sentiment'' sent')))"

subsection \<open>Enum values (lines 268 to 274)\<close>

text \<open>\<^verbatim>\<open>if key in h: if h[key] not in allowed: h[key] = dflt\<close>\<close>

definition fix_enum :: "string \<Rightarrow> string list \<Rightarrow> string \<Rightarrow> pyval \<Rightarrow> py_error + pyval" where
  "fix_enum key allowed dflt h =
     and_then (py_in key h) (\<lambda>present.
       if \<not> present then Inr h
       else and_then (py_getitem h key) (\<lambda>v.
         if v \<notin> set (map PStr allowed) then py_setitem h key (PStr dflt) else Inr h))"

definition fix_enums :: "pyval \<Rightarrow> py_error + pyval" where
  "fix_enums d =
     and_then (py_in ''header'' d) (\<lambda>present.
       if \<not> present then Inr d
       else and_then (py_getitem d ''header'') (\<lambda>h.
         and_then (fix_enum ''status'' [''good'', ''moderate'', ''major issues''] ''moderate'' h)
           (\<lambda>h1.
         and_then (fix_enum ''status_color'' [''green'', ''yellow'', ''red''] ''yellow'' h1)
           (\<lambda>h2. py_setitem d ''header'' h2))))"

subsection \<open>Report count (lines 277 to 281) and the whole pass\<close>

definition fix_total_reports :: "pylib \<Rightarrow> pyval \<Rightarrow> py_error + pyval" where
  "fix_total_reports L = fix_header_number (coerce_count L) ''total_reports_24h''"

definition truncate_arrays :: "pyval \<Rightarrow> py_error + pyval" where
  "truncate_arrays d =
     and_then (truncate_field ''key_metrics'' 5 d) (\<lambda>d1.
     and_then (truncate_field ''active_outages'' 10 d1) (\<lambda>d2.
     and_then (truncate_field ''geographic_hotspots'' 5 d2) (\<lambda>d3.
     and_then (truncate_field ''recent_activity'' 8 d3) (\<lambda>d4.
     and_then (truncate_field ''critical_insights'' 4 d4) (\<lambda>d5.
     and_then (truncate_field ''recommendations'' 3 d5) truncate_samples)))))"

definition validate :: "pylib \<Rightarrow> pyval \<Rightarrow> py_error + pyval" where
  "validate L d =
     and_then (fix_pain_index L d) (\<lambda>d1.
     and_then (fix_star_rating L d1) (\<lambda>d2.
     and_then (fix_sentiment L d2) (\<lambda>d3.
     and_then (fix_problem_distribution L d3) (\<lambda>d4.
     and_then (truncate_arrays d4) (\<lambda>d5.
     and_then (fix_enums d5) (fix_total_reports L))))))"

text \<open>
  The parsers of a run in which no str is converted to a number (every concrete
  candidate evaluated below holds numbers, not numeric strs).
\<close>

definition no_numeric_strings :: pylib where
  "no_numeric_strings = \<lparr>str_to_float = (\<lambda>s. None), str_to_int = (\<lambda>s. None)\<rparr>"

section \<open>From the model's text to the report file\<close>

subsection \<open>Code fences and whitespace (lines 202 to 204)\<close>

definition fence :: string where
  "fence = [CHR 0x60, CHR 0x60, CHR 0x60]"

definition newline :: char where
  "newline = CHR 0x0A"

text \<open>
  \<^verbatim>\<open>re.sub(r'^```(?:json)?\n?', '', s)\<close>: \<^verbatim>\<open>^\<close> only matches at the start of the text, and
  each optional part is taken when it is there.
\<close>

definition strip_open_fence :: "string \<Rightarrow> string" where
  "strip_open_fence s =
     (if prefix fence s then
        (let s1 = drop 3 s;
             s2 = (if prefix ''json'' s1 then drop 4 s1 else s1)
         in if prefix [newline] s2 then drop 1 s2 else s2)
      else s)"

text \<open>
  \<^verbatim>\<open>re.sub(r'\n?```$', '', s)\<close>: \<^verbatim>\<open>$\<close> matches at the end of the text and before a newline
  that is its last character, which then stays.
\<close>

definition strip_close_fence :: "string \<Rightarrow> string" where
  "strip_close_fence s =
     (let ends_nl = (s \<noteq> [] \<and> last s = newline);
          body = (if ends_nl then butlast s else s)
      in if suffix fence body then
           (let b1 = take (length body - 3) body;
                b2 = (if b1 \<noteq> [] \<and> last b1 = newline then butlast b1 else b1)
            in b2 @ (if ends_nl then [newline] else []))
         else s)"

text \<open>\<^verbatim>\<open>str.isspace\<close> on the code points below 256, and \<^verbatim>\<open>str.strip()\<close>.\<close>

definition is_space :: "char \<Rightarrow> bool" where
  "is_space c = ((of_char c :: nat) \<in> {9, 10, 11, 12, 13, 28, 29, 30, 31, 32, 133, 160})"

definition py_strip :: "string \<Rightarrow> string" where
  "py_strip s = rev (dropWhile is_space (rev (dropWhile is_space s)))"

definition strip_markdown :: "string \<Rightarrow> string" where
  "strip_markdown raw = py_strip (strip_close_fence (strip_open_fence raw))"

subsection \<open>Parsing, repairing and saving (lines 207 to 296)\<close>

text \<open>\<^verbatim>\<open>str.lower()\<close> on the code points below 256.\<close>

definition char_lower :: "char \<Rightarrow> char" where
  "char_lower c =
     (let n = (of_char c :: nat)
      in if (65 \<le> n \<and> n \<le> 90) \<or> (192 \<le> n \<and> n \<le> 222 \<and> n \<noteq> 215) then char_of (n + 32)
         else c)"

text \<open>The file name under the directory \<^verbatim>\<open>reports\<close>.\<close>

definition report_filename :: "string \<Rightarrow> string" where
  "report_filename service_provider = map char_lower service_provider @ ''.json''"

text \<open>
  What \<^verbatim>\<open>json.loads\<close> does with a text: it returns the parsed value, it raises
  \<^verbatim>\<open>json.JSONDecodeError\<close>, or it raises another exception (\<^verbatim>\<open>ValueError\<close> on an
  integer literal of more than 4300 digits, which is not a \<^verbatim>\<open>JSONDecodeError\<close>, and
  \<^verbatim>\<open>RecursionError\<close> on deeply nested brackets).
\<close>

datatype loaded = Loaded pyval | JSONDecodeError | OtherError py_error

text \<open>
  The interpreter and the machine around the function, taken as parameters:
  \<^verbatim>\<open>json.loads\<close>; \<^verbatim>\<open>json.dumps(..., indent=2, ensure_ascii=False)\<close>, which returns the
  text or raises (\<^verbatim>\<open>RecursionError\<close> on deep nesting); \<^verbatim>\<open>print\<close> of the warning
  (\<open>None\<close> when it returns); \<^verbatim>\<open>Path("reports").mkdir(parents=True, exist_ok=True)\<close>
  followed by the opening of the report file for writing (\<open>None\<close> when the file is
  open, and then it is empty); and whether a text can be encoded in the encoding of
  the file, which is that of the locale.
\<close>

record runtime =
  json_loads :: "string \<Rightarrow> loaded"
  json_dumps :: "pyval \<Rightarrow> py_error + string"
  print_warning :: "py_error option"
  open_report :: "string \<Rightarrow> py_error option"
  encodable :: "string \<Rightarrow> bool"

text \<open>
  What the function leaves behind: the text written to the report file; the report file
  left empty by an exception raised after it was opened; or the exception that ends the
  call before the report file is touched.
\<close>

datatype outcome = Written string string | Emptied string py_error | Raised py_error

text \<open>
  Lines 292 to 296. \<^verbatim>\<open>Path.write_text\<close> opens the file in mode \<^verbatim>\<open>w\<close>, which creates or
  empties it, and then encodes and writes the text; a text that cannot be encoded raises
  \<^verbatim>\<open>UnicodeEncodeError\<close> with nothing written.
\<close>

definition write_text :: "runtime \<Rightarrow> string \<Rightarrow> string \<Rightarrow> outcome" where
  "write_text R name content =
     (case open_report R name of
        Some e \<Rightarrow> Raised e
      | None \<Rightarrow>
          (if encodable R content then Written name content
           else Emptied name UnicodeEncodeError))"

text \<open>Line 284 and the write: the payload is serialized and the text is written.\<close>

definition write_payload :: "runtime \<Rightarrow> string \<Rightarrow> pyval \<Rightarrow> outcome" where
  "write_payload R name d =
     (case json_dumps R d of
        Inl e \<Rightarrow> Raised e
      | Inr t \<Rightarrow> write_text R name t)"

text \<open>
  Lines 207 to 296; \<open>parsed\<close> is what \<^verbatim>\<open>json.loads\<close> did with the stripped text
  \<open>content\<close>. Only \<^verbatim>\<open>json.JSONDecodeError\<close> is caught (line 286): the warning is printed
  and the stripped text is written. Every other exception of the \<^verbatim>\<open>try\<close> block, from
  \<^verbatim>\<open>json.loads\<close>, from a repair or from \<^verbatim>\<open>json.dumps\<close>, ends the call before line 292.
\<close>

definition save_report ::
  "runtime \<Rightarrow> pylib \<Rightarrow> string \<Rightarrow> string \<Rightarrow> loaded \<Rightarrow> outcome" where
  "save_report R L service_provider content parsed =
     (case parsed of
        OtherError e \<Rightarrow> Raised e
      | JSONDecodeError \<Rightarrow>
          (case print_warning R of
             Some e \<Rightarrow> Raised e
           | None \<Rightarrow> write_text R (report_filename service_provider) content)
      | Loaded d \<Rightarrow>
          (case validate L d of
             Inl e \<Rightarrow> Raised e
           | Inr d' \<Rightarrow> write_payload R (report_filename service_provider) d'))"

text \<open>
  The part of \<^verbatim>\<open>analyze_insights\<close> that follows the request to the model:
  \<open>dashboard_content\<close> is the text of the model's answer.
\<close>

definition analyze_insights :: "runtime \<Rightarrow> pylib \<Rightarrow> string \<Rightarrow> string \<Rightarrow> outcome" where
  "analyze_insights R L service_provider dashboard_content =
     (let content = strip_markdown dashboard_content
      in save_report R L service_provider content (json_loads R content))"

section \<open>The extractors of \<^verbatim>\<open>webscrapper.py\<close>\<close>

text \<open>
  BeautifulSoup does the selection; an extractor is modelled on what its selectors
  return. \<^verbatim>\<open>text(el)\<close> is a str, empty when the element is missing, and
  \<^verbatim>\<open>attr(el, name)\<close> is the attribute or \<^verbatim>\<open>None\<close>. A dict with fixed keys is a record, a
  dict whose keys depend on the page is an association list.
\<close>

subsection \<open>\<^verbatim>\<open>parse_datetime\<close>\<close>

text \<open>
  \<^verbatim>\<open>datetime.fromisoformat(s).isoformat()\<close> and
  \<^verbatim>\<open>datetime.strptime(s, "%A, %B %d, %Y %I:%M %p").isoformat()\<close> belong to the standard
  library: parameters, \<open>None\<close> when they raise.
\<close>

record datelib =
  fromisoformat :: "string \<Rightarrow> string option"
  strptime_title :: "string \<Rightarrow> string option"

text \<open>\<^verbatim>\<open>raw.replace("Z", "+00:00")\<close>\<close>

definition replace_Z :: "string \<Rightarrow> string" where
  "replace_Z raw = concat (map (\<lambda>c. if c = CHR ''Z'' then ''+00:00'' else [c]) raw)"

definition parse_datetime :: "datelib \<Rightarrow> string option \<Rightarrow> string option" where
  "parse_datetime D raw =
     (case raw of
        None \<Rightarrow> None
      | Some r \<Rightarrow>
          if r = [] then None
          else (case fromisoformat D (replace_Z r) of
                  Some stamp \<Rightarrow> Some stamp
                | None \<Rightarrow>
                    (case strptime_title D r of Some stamp \<Rightarrow> Some stamp | None \<Rightarrow> Some r)))"

subsection \<open>\<^verbatim>\<open>parse_star_rating\<close>\<close>

text \<open>The texts of the two sub-elements of the container \<^verbatim>\<open>.star-rating-text\<close>.\<close>

record star_container =
  star_current :: string
  star_count :: string

text \<open>\<^verbatim>\<open>text(el) or None\<close>\<close>

definition or_None :: "string \<Rightarrow> string option" where
  "or_None t = (if t = [] then None else Some t)"

definition parse_star_rating :: "star_container option \<Rightarrow> (string \<times> string option) list" where
  "parse_star_rating container =
     (case container of
        None \<Rightarrow> []
      | Some c \<Rightarrow> [(''current'', or_None (star_current c)), (''count'', or_None (star_count c))])"

subsection \<open>\<^verbatim>\<open>parse_chart\<close>\<close>

definition is_digit :: "char \<Rightarrow> bool" where
  "is_digit c = (48 \<le> (of_char c :: nat) \<and> (of_char c :: nat) \<le> 57)"

text \<open>
  \<^verbatim>\<open>var\s+chartTs\s*=\s*(\d+)\<close> matched at the head of a text: the digits of the group.
\<close>

definition match_chart_ts :: "string \<Rightarrow> string option" where
  "match_chart_ts s =
     (if \<not> prefix ''var'' s then None
      else let s1 = drop 3 s; s2 = dropWhile is_space s1
           in if s2 = s1 \<or> \<not> prefix ''chartTs'' s2 then None
              else let s3 = dropWhile is_space (drop 7 s2)
                   in if \<not> prefix ''='' s3 then None
                      else let s4 = dropWhile is_space (drop 1 s3); ds = takeWhile is_digit s4
                           in if ds = [] then None else Some ds)"

text \<open>\<^verbatim>\<open>re.search\<close>: the match at the leftmost position that has one.\<close>

fun search :: "(string \<Rightarrow> 'a option) \<Rightarrow> string \<Rightarrow> 'a option" where
  "search m [] = m []"
| "search m (c # cs) = (case m (c # cs) of Some r \<Rightarrow> Some r | None \<Rightarrow> search m cs)"

text \<open>
  The loop over the scripts stops at the first one whose text contains
  \<^verbatim>\<open>var chartTs\<close>, whether or not the pattern matches there.
\<close>

fun chart_ts_of :: "string option list \<Rightarrow> (string \<times> string option) list" where
  "chart_ts_of [] = []"
| "chart_ts_of (None # scripts) = chart_ts_of scripts"
| "chart_ts_of (Some t # scripts) =
     (if t \<noteq> [] \<and> sublist ''var chartTs'' t then
        (case search match_chart_ts t of
           Some ds \<Rightarrow> [(''chart_ts'', Some ds)]
         | None \<Rightarrow> [])
      else chart_ts_of scripts)"

text \<open>
  \<^verbatim>\<open>(\d{2}/\d{2}/\d{4}\s+\d{2}:\d{2})\<close> matched at the head of a text: the matched text.
\<close>

definition digits_then :: "nat \<Rightarrow> string \<Rightarrow> string option" where
  "digits_then n s =
     (if n \<le> length s \<and> list_all is_digit (take n s) then Some (drop n s) else None)"

definition match_alt_time :: "string \<Rightarrow> string option" where
  "match_alt_time s =
     (case digits_then 2 s of None \<Rightarrow> None | Some s1 \<Rightarrow>
      if \<not> prefix ''/'' s1 then None else
      case digits_then 2 (drop 1 s1) of None \<Rightarrow> None | Some s2 \<Rightarrow>
      if \<not> prefix ''/'' s2 then None else
      case digits_then 4 (drop 1 s2) of None \<Rightarrow> None | Some s3 \<Rightarrow>
      let s4 = dropWhile is_space s3 in
      if s4 = s3 then None else
      case digits_then 2 s4 of None \<Rightarrow> None | Some s5 \<Rightarrow>
      if \<not> prefix '':'' s5 then None else
      case digits_then 2 (drop 1 s5) of None \<Rightarrow> None | Some s6 \<Rightarrow>
      Some (take (length s - length s6) s))"

text \<open>The chart image, when there is one: its \<^verbatim>\<open>src\<close> and \<^verbatim>\<open>alt\<close> attributes.\<close>

record chart_img =
  img_src :: "string option"
  img_alt :: "string option"

definition parse_chart ::
  "string option list \<Rightarrow> chart_img option \<Rightarrow> (string \<times> string option) list" where
  "parse_chart scripts img =
     chart_ts_of scripts @
     (case img of
        None \<Rightarrow> []
      | Some i \<Rightarrow>
          (''image_src'', img_src i) #
          (case search match_alt_time (case img_alt i of None \<Rightarrow> [] | Some a \<Rightarrow> a) of
             Some t \<Rightarrow> [(''alt_time'', Some t)]
           | None \<Rightarrow> []))"

subsection \<open>\<^verbatim>\<open>parse_most_reported\<close>\<close>

text \<open>
  One \<^verbatim>\<open>li\<close> of \<^verbatim>\<open>ol.doughtnut-list\<close>: the text of its \<^verbatim>\<open>p\<close>, the text of the \<^verbatim>\<open>span\<close> in
  that \<^verbatim>\<open>p\<close>, and the \<^verbatim>\<open>alt\<close> of its \<^verbatim>\<open>img\<close>.
\<close>

record problem_li =
  li_p_text :: string
  li_span_text :: string
  li_img_alt :: "string option"

record problem =
  label :: string
  percent :: "int option"

text \<open>\<^verbatim>\<open>re.search(r"(\d+)%", s)\<close>: the first run of digits that a \<^verbatim>\<open>%\<close> follows.\<close>

function find_percent :: "string \<Rightarrow> string option" where
  "find_percent [] = None"
| "find_percent (c # cs) =
     (if is_digit c then
        (let rest = dropWhile is_digit cs
         in if prefix ''%'' rest then Some (c # takeWhile is_digit cs) else find_percent rest)
      else find_percent cs)"
  by pat_completeness auto
termination
  by (relation "measure length") (auto simp: length_dropWhile_le less_Suc_eq_le)

text \<open>
  \<^verbatim>\<open>int(digits)\<close>. CPython from 3.11 on refuses a str of more than 4300 digits with
  ValueError, which \<^verbatim>\<open>parse_most_reported\<close> does not catch.
\<close>

definition digit_value :: "char \<Rightarrow> int" where
  "digit_value c = int (of_char c) - 48"

definition int_of_digits :: "string \<Rightarrow> py_error + int" where
  "int_of_digits ds =
     (if 4300 < length ds then Inl ValueError
      else Inr (foldl (\<lambda>n c. 10 * n + digit_value c) 0 ds))"

text \<open>\<^verbatim>\<open>re.sub(r"\(\d+%\)", "", s)\<close>\<close>

function remove_percents :: "string \<Rightarrow> string" where
  "remove_percents [] = []"
| "remove_percents (c # cs) =
     (let rest = dropWhile is_digit cs
      in if c = CHR ''('' \<and> takeWhile is_digit cs \<noteq> [] \<and> prefix ''%)'' rest
         then remove_percents (drop 2 rest)
         else c # remove_percents cs)"
  by pat_completeness auto
termination
  by (relation "measure length") (auto simp: length_dropWhile_le less_Suc_eq_le intro: le_trans [OF diff_le_self])

definition parse_problem :: "problem_li \<Rightarrow> py_error + problem" where
  "parse_problem li =
     (let percent_text =
            (if li_span_text li \<noteq> [] then li_span_text li
             else case li_img_alt li of None \<Rightarrow> [] | Some a \<Rightarrow> a)
      in and_then
           (case find_percent percent_text of
              None \<Rightarrow> Inr None
            | Some ds \<Rightarrow> and_then (int_of_digits ds) (\<lambda>n. Inr (Some n)))
           (\<lambda>pc. Inr \<lparr>label = py_strip (remove_percents (li_p_text li)), percent = pc\<rparr>))"

definition parse_most_reported :: "problem_li list \<Rightarrow> py_error + problem list" where
  "parse_most_reported lis = map_err parse_problem lis"

subsection \<open>\<^verbatim>\<open>parse_latest_reports\<close>\<close>

text \<open>
  One \<^verbatim>\<open>td\<close>: its text and the \<^verbatim>\<open>datetime\<close> attribute of the first \<^verbatim>\<open>time\<close> element in
  it (\<open>None\<close> without such an element or attribute). A row is the list of its cells.
\<close>

record cell =
  cell_text :: string
  cell_datetime :: "string option"

record report =
  city :: string
  reason :: string
  time_human :: string
  time_iso :: "string option"

definition report_of :: "datelib \<Rightarrow> cell list \<Rightarrow> report" where
  "report_of D cells =
     \<lparr>city = cell_text (cells ! 0),
      reason = cell_text (cells ! 1),
      time_human = cell_text (cells ! 2),
      time_iso = parse_datetime D (cell_datetime (cells ! 2))\<rparr>"

text \<open>The loop over \<^verbatim>\<open>#latestreports tr\<close>; \<open>report_of\<close> is only called on three cells.\<close>

fun parse_latest_reports :: "datelib \<Rightarrow> cell list list \<Rightarrow> report list" where
  "parse_latest_reports D [] = []"
| "parse_latest_reports D (cells # trs) =
     (if length cells \<noteq> 3 then parse_latest_reports D trs
      else report_of D cells # parse_latest_reports D trs)"

subsection \<open>\<^verbatim>\<open>parse_issue_feed\<close> and \<^verbatim>\<open>parse_company_posts\<close>\<close>

text \<open>
  One \<^verbatim>\<open>li\<close> of \<^verbatim>\<open>ul.reports\<close>: the texts of its \<^verbatim>\<open>span.pseudolink\<close> elements, the text of
  the \<^verbatim>\<open>span\<close> of its \<^verbatim>\<open>p\<close> (when it has a \<^verbatim>\<open>p\<close>), the \<^verbatim>\<open>datetime\<close> of its \<^verbatim>\<open>time\<close>
  element (when it has one) and the text of its \<^verbatim>\<open>a.city-link\<close> (when it has one).
\<close>

record issue_li =
  pseudolinks :: "string list"
  p_span_text :: "string option"
  time_datetime :: "string option option"
  city_link :: "string option"

definition parse_issue :: "datelib \<Rightarrow> issue_li \<Rightarrow> (string \<times> string option) list" where
  "parse_issue D li =
     [(''user'', (case pseudolinks li of [] \<Rightarrow> None | u # us \<Rightarrow> Some u)),
      (''text'', p_span_text li),
      (''time_iso'', (case time_datetime li of None \<Rightarrow> None | Some a \<Rightarrow> parse_datetime D a))] @
     (case city_link li of
        None \<Rightarrow> []
      | Some loc \<Rightarrow> if loc = [] then [] else [(''location'', Some loc)])"

definition parse_issue_feed :: "datelib \<Rightarrow> issue_li list \<Rightarrow> (string \<times> string option) list list" where
  "parse_issue_feed D lis = map (parse_issue D) lis"

text \<open>
  One \<^verbatim>\<open>a\<close> of \<^verbatim>\<open>#twitter-timeline-section\<close>: its \<^verbatim>\<open>href\<close>, three texts, and for its
  \<^verbatim>\<open>time\<close> element (when it has one) the \<^verbatim>\<open>datetime\<close> attribute and the text.
\<close>

record post_anchor =
  anchor_href :: "string option"
  anchor_name :: string
  anchor_reply :: string
  anchor_text :: string
  anchor_time :: "(string option \<times> string) option"

definition parse_post :: "post_anchor \<Rightarrow> (string \<times> string option) list" where
  "parse_post a =
     [(''url'', anchor_href a),
      (''name'', or_None (anchor_name a)),
      (''reply_context'', or_None (anchor_reply a)),
      (''text'', or_None (anchor_text a))] @
     (case anchor_time a of
        None \<Rightarrow> []
      | Some (Some dt, t) \<Rightarrow> [(''timestamp'', Some dt)]
      | Some (None, t) \<Rightarrow> [(''timestamp'', Some t)])"

definition parse_company_posts :: "post_anchor list option \<Rightarrow> (string \<times> string option) list list" where
  "parse_company_posts posts_section =
     (case posts_section of None \<Rightarrow> [] | Some anchors \<Rightarrow> map parse_post anchors)"

subsection \<open>\<^verbatim>\<open>parse_outage_page\<close>\<close>

text \<open>The regions of the page the six extractors select.\<close>

record page =
  star_region :: "star_container option"
  script_texts :: "string option list"
  chart_region :: "chart_img option"
  problem_region :: "problem_li list"
  report_rows :: "cell list list"
  issue_region :: "issue_li list"
  posts_region :: "post_anchor list option"

record outage_data =
  star_rating :: "(string \<times> string option) list"
  chart :: "(string \<times> string option) list"
  most_reported_problems :: "problem list"
  latest_reports :: "report list"
  issues_reports :: "(string \<times> string option) list list"
  company_posts :: "(string \<times> string option) list list"

text \<open>
  The dict display evaluates the extractors in order; \<^verbatim>\<open>parse_most_reported\<close> is the only
  one with an exception to pass on.
\<close>

definition parse_outage_page :: "datelib \<Rightarrow> page \<Rightarrow> py_error + outage_data" where
  "parse_outage_page D pg =
     and_then (parse_most_reported (problem_region pg)) (\<lambda>problems.
       Inr \<lparr>star_rating = parse_star_rating (star_region pg),
            chart = parse_chart (script_texts pg) (chart_region pg),
            most_reported_problems = problems,
            latest_reports = parse_latest_reports D (report_rows pg),
            issues_reports = parse_issue_feed D (issue_region pg),
            company_posts = parse_company_posts (posts_region pg)\<rparr>)"

section \<open>Reading the repairs field by field\<close>

text \<open>
  The definitions of this section are not part of the program: they say what the
  repairs do to one value, so that the pass over a dict can be read as one pipeline of
  repairs per key (lemmas \<open>validate_dict\<close> and \<open>run_steps_fields\<close> below).
\<close>

text \<open>The value under a key of a dict, and under a key of a dict under a key.\<close>

fun dict_get :: "pyval \<Rightarrow> string \<Rightarrow> pyval option" where
  "dict_get (PDict kvs) k = map_of kvs k"
| "dict_get v k = None"

definition dict_get2 :: "pyval \<Rightarrow> string \<Rightarrow> string \<Rightarrow> pyval option" where
  "dict_get2 d k1 k2 = (case dict_get d k1 of None \<Rightarrow> None | Some h \<Rightarrow> dict_get h k2)"

text \<open>A repair of the value under one key, when the key is there.\<close>

definition modify ::
  "string \<Rightarrow> (pyval \<Rightarrow> py_error + pyval) \<Rightarrow> (string \<times> pyval) list
     \<Rightarrow> py_error + (string \<times> pyval) list" where
  "modify k f kvs =
     (case map_of kvs k of
        None \<Rightarrow> Inr kvs
      | Some v \<Rightarrow> and_then (f v) (\<lambda>v'. Inr (AList.update k v' kvs)))"

fun run_steps ::
  "(string \<times> (pyval \<Rightarrow> py_error + pyval)) list \<Rightarrow> (string \<times> pyval) list
     \<Rightarrow> py_error + (string \<times> pyval) list" where
  "run_steps [] kvs = Inr kvs"
| "run_steps (s # ss) kvs = and_then (modify (fst s) (snd s) kvs) (run_steps ss)"

text \<open>The repairs of a list of steps that apply to the key \<open>k\<close>, in order.\<close>

fun pipeline ::
  "string \<Rightarrow> (string \<times> (pyval \<Rightarrow> py_error + pyval)) list \<Rightarrow> pyval \<Rightarrow> py_error + pyval" where
  "pipeline k [] v = Inr v"
| "pipeline k (s # ss) v =
     (if fst s = k then and_then (snd s v) (pipeline k ss) else pipeline k ss v)"

definition number_value :: "(pyval \<Rightarrow> py_error + pyval) \<Rightarrow> pyval \<Rightarrow> py_error + pyval" where
  "number_value coerce v = (if v = PNone then Inr v else coerce v)"

definition enum_value :: "string list \<Rightarrow> string \<Rightarrow> pyval \<Rightarrow> py_error + pyval" where
  "enum_value allowed dflt v = Inr (if v \<in> set (map PStr allowed) then v else PStr dflt)"

definition truncate_value :: "nat \<Rightarrow> pyval \<Rightarrow> py_error + pyval" where
  "truncate_value n v = and_then (py_len v) (\<lambda>l. if n < l then py_slice v n else Inr v)"

definition problems_value :: "pylib \<Rightarrow> pyval \<Rightarrow> py_error + pyval" where
  "problems_value L pd =
     and_then (py_iter pd) (\<lambda>items.
     and_then (map_err (fix_problem L) items) (\<lambda>items'.
       Inr (case pd of PList xs \<Rightarrow> PList items' | _ \<Rightarrow> pd)))"

definition header_enums :: "pyval \<Rightarrow> py_error + pyval" where
  "header_enums h =
     and_then (fix_enum ''status'' [''good'', ''moderate'', ''major issues''] ''moderate'' h)
       (fix_enum ''status_color'' [''green'', ''yellow'', ''red''] ''yellow'')"

definition validate_steps :: "pylib \<Rightarrow> (string \<times> (pyval \<Rightarrow> py_error + pyval)) list" where
  "validate_steps L =
     [(''pain_index'', number_value (coerce_pain_index L)),
      (''header'', fix_number (coerce_star_rating L) ''star_rating''),
      (''sentiment'', repair_sentiment L),
      (''problem_distribution'', problems_value L),
      (''key_metrics'', truncate_value 5),
      (''active_outages'', truncate_value 10),
      (''geographic_hotspots'', truncate_value 5),
      (''recent_activity'', truncate_value 8),
      (''critical_insights'', truncate_value 4),
      (''recommendations'', truncate_value 3),
      (''sentiment'', truncate_field ''samples'' 4),
      (''header'', header_enums),
      (''header'', fix_number (coerce_count L) ''total_reports_24h'')]"

text \<open>The repairs of the header and of the sentiment loop, on the keys of those dicts.\<close>

definition header_steps :: "pylib \<Rightarrow> (string \<times> (pyval \<Rightarrow> py_error + pyval)) list" where
  "header_steps L =
     [(''star_rating'', number_value (coerce_star_rating L)),
      (''status'', enum_value [''good'', ''moderate'', ''major issues''] ''moderate''),
      (''status_color'', enum_value [''green'', ''yellow'', ''red''] ''yellow''),
      (''total_reports_24h'', number_value (coerce_count L))]"

definition sentiment_steps :: "pylib \<Rightarrow> (string \<times> (pyval \<Rightarrow> py_error + pyval)) list" where
  "sentiment_steps L =
     [(''negative'', number_value (coerce_percent L)),
      (''neutral'', number_value (coerce_percent L)),
      (''positive'', number_value (coerce_percent L))]"

text \<open>
  \<^verbatim>\<open>int(round(a * scale))\<close> with \<^verbatim>\<open>scale = 100 / total\<close>, for an int \<open>a\<close> that converts to
  a float exactly.
\<close>

definition rescale :: "int \<Rightarrow> int \<Rightarrow> int" where
  "rescale a tot = round_half_even (fp_round (of_int a * fp_round (100 / of_int tot)))"

text \<open>The bounded array fields at the top of the payload, with their bounds.\<close>

definition array_bounds :: "(string \<times> nat) list" where
  "array_bounds =
     [(''key_metrics'', 5), (''active_outages'', 10), (''geographic_hotspots'', 5),
      (''recent_activity'', 8), (''critical_insights'', 4), (''recommendations'', 3)]"

text \<open>The keys the repairs test for at the top of the candidate.\<close>

definition guarded_keys :: "string list" where
  "guarded_keys =
     [''pain_index'', ''header'', ''sentiment'', ''problem_distribution'', ''key_metrics'',
      ''active_outages'', ''geographic_hotspots'', ''recent_activity'', ''critical_insights'',
      ''recommendations'']"

section \<open>Example candidates\<close>

text \<open>A candidate whose numeric fields are null and whose arrays are missing.\<close>

definition null_candidate :: pyval where
  "null_candidate =
     PDict [(''pain_index'', PNone),
            (''header'', PDict [(''star_rating'', PNone), (''total_reports_24h'', PNone)]),
            (''problem_distribution'',
               PList [PDict [(''label'', PStr ''Internet''), (''percent'', PNone)],
                      PDict [(''label'', PStr ''Phone'')]])]"

text \<open>A candidate with seven key metrics, five sentiment samples and a wrong status.\<close>

definition long_candidate :: pyval where
  "long_candidate =
     PDict [(''header'', PDict [(''status'', PStr ''outage''), (''status_color'', PStr ''red'')]),
            (''key_metrics'', PList [PInt 1, PInt 2, PInt 3, PInt 4, PInt 5, PInt 6, PInt 7]),
            (''recommendations'', PList [PStr ''a'', PStr ''b'']),
            (''sentiment'',
               PDict [(''negative'', PInt 50), (''neutral'', PInt 30), (''positive'', PInt 20),
                      (''samples'', PList [PInt 1, PInt 2, PInt 3, PInt 4, PInt 5])])]"

definition long_candidate_validated :: pyval where
  "long_candidate_validated =
     PDict [(''header'', PDict [(''status'', PStr ''moderate''), (''status_color'', PStr ''red'')]),
            (''key_metrics'', PList [PInt 1, PInt 2, PInt 3, PInt 4, PInt 5]),
            (''recommendations'', PList [PStr ''a'', PStr ''b'']),
            (''sentiment'',
               PDict [(''negative'', PInt 50), (''neutral'', PInt 30), (''positive'', PInt 20),
                      (''samples'', PList [PInt 1, PInt 2, PInt 3, PInt 4])])]"

text \<open>
  A latest-reports table with five rows of three cells and, in fourth place, a row of two
  cells. No cell has a \<^verbatim>\<open>datetime\<close> attribute, so the date parsers are not called.
\<close>

definition plain_cell :: "string \<Rightarrow> cell" where
  "plain_cell t = \<lparr>cell_text = t, cell_datetime = None\<rparr>"

definition five_valid_one_malformed :: "cell list list" where
  "five_valid_one_malformed =
     [[plain_cell ''Dallas'', plain_cell ''Internet'', plain_cell ''2 minutes ago''],
      [plain_cell ''Austin'', plain_cell ''Phone'', plain_cell ''5 minutes ago''],
      [plain_cell ''Houston'', plain_cell ''Wi-fi'', plain_cell ''9 minutes ago''],
      [plain_cell ''Plano'', plain_cell ''Internet''],
      [plain_cell ''Irving'', plain_cell ''TV'', plain_cell ''12 minutes ago''],
      [plain_cell ''Frisco'', plain_cell ''E-mail'', plain_cell ''20 minutes ago'']]"

definition unused_dates :: datelib where
  "unused_dates = \<lparr>fromisoformat = (\<lambda>s. None), strptime_title = (\<lambda>s. None)\<rparr>"

text \<open>
  A candidate with seven key metrics beside a null sentiment value, and one with a wrong
  status beside a null \<^verbatim>\<open>key_metrics\<close>.
\<close>

definition seven_metrics_null_sentiment :: pyval where
  "seven_metrics_null_sentiment =
     PDict [(''key_metrics'', PList [PInt 1, PInt 2, PInt 3, PInt 4, PInt 5, PInt 6, PInt 7]),
            (''sentiment'', PDict [(''negative'', PNone)])]"

definition outage_status_null_metrics :: pyval where
  "outage_status_null_metrics =
     PDict [(''header'', PDict [(''status'', PStr ''outage'')]),
            (''key_metrics'', PNone)]"

text \<open>
  A model answer in a code fence whose content is not JSON, an integer literal of 5000
  digits, and a runtime on which every write succeeds, with \<^verbatim>\<open>json.loads\<close> and
  \<^verbatim>\<open>json.dumps\<close> on the texts evaluated with it: \<^verbatim>\<open>{}\<close> is the empty dict, the
  long literal raises \<^verbatim>\<open>ValueError\<close> and \<^verbatim>\<open>not json\<close> raises \<^verbatim>\<open>json.JSONDecodeError\<close>.
\<close>

definition fenced_answer :: string where
  "fenced_answer = fence @ ''json'' @ [newline] @ ''not json'' @ [newline] @ fence"

definition long_integer :: string where
  "long_integer = replicate 5000 (CHR ''9'')"

definition sample_loads :: "string \<Rightarrow> loaded" where
  "sample_loads s =
     (if s = ''{}'' then Loaded (PDict [])
      else if s = long_integer then OtherError ValueError
      else JSONDecodeError)"

definition sample_dumps :: "pyval \<Rightarrow> py_error + string" where
  "sample_dumps v = (if v = PDict [] then Inr ''{}'' else Inr [])"

definition sample_runtime :: runtime where
  "sample_runtime =
     \<lparr>json_loads = sample_loads, json_dumps = sample_dumps, print_warning = None,
      open_report = (\<lambda>name. None), encodable = (\<lambda>t. True)\<rparr>"

text \<open>The same runtime with a file encoding that has no code point above 127.\<close>

definition ascii_runtime :: runtime where
  "ascii_runtime = sample_runtime\<lparr>encodable := (\<lambda>t. \<forall>c \<in> set t. (of_char c :: nat) < 128)\<rparr>"

section \<open>Lemmas on the error monad and on dicts\<close>

lemma and_then_Inr [simp]: "and_then (Inr x) f = f x"
  by (simp add: and_then_def)

lemma and_then_Inl [simp]: "and_then (Inl e) f = Inl e"
  by (simp add: and_then_def)

lemma and_then_eq_Inr: "and_then m f = Inr y \<longleftrightarrow> (\<exists>x. m = Inr x \<and> f x = Inr y)"
  by (cases m) simp_all

lemma and_then_assoc: "and_then (and_then m f) g = and_then m (\<lambda>x. and_then (f x) g)"
  by (cases m) simp_all

lemma and_then_return [simp]: "and_then m Inr = m"
  by (cases m) simp_all

lemma map_of_Some_key: "map_of kvs k = Some v \<Longrightarrow> k \<in> fst ` set kvs"
  using map_of_eq_None_iff [of kvs k] by auto

lemma modify_result:
  assumes "modify k f kvs = Inr kvs'"
  shows "map fst kvs' = map fst kvs"
    and "k' \<noteq> k \<Longrightarrow> map_of kvs' k' = map_of kvs k'"
    and "map_of kvs k = Some v \<Longrightarrow> \<exists>v'. f v = Inr v' \<and> map_of kvs' k = Some v'"
proof -
  show "map fst kvs' = map fst kvs"
  proof (cases "map_of kvs k")
    case None
    with assms show ?thesis by (simp add: modify_def)
  next
    case (Some v)
    with assms obtain v' where "kvs' = AList.update k v' kvs"
      by (auto simp: modify_def and_then_eq_Inr)
    with map_of_Some_key [OF Some] show ?thesis by (simp add: update_keys)
  qed
  show "map_of kvs' k' = map_of kvs k'" if "k' \<noteq> k"
    using assms that
    by (cases "map_of kvs k") (auto simp: modify_def and_then_eq_Inr update_conv')
  show "\<exists>v'. f v = Inr v' \<and> map_of kvs' k = Some v'" if "map_of kvs k = Some v"
    using assms that by (auto simp: modify_def and_then_eq_Inr update_conv')
qed

lemma run_steps_fields:
  "run_steps ss kvs = Inr kvs' \<Longrightarrow>
     map fst kvs' = map fst kvs \<and>
     (\<forall>k v. map_of kvs k = Some v \<longrightarrow> (\<exists>v'. pipeline k ss v = Inr v' \<and> map_of kvs' k = Some v'))"
proof (induction ss arbitrary: kvs)
  case Nil
  then show ?case by auto
next
  case (Cons s ss)
  from Cons.prems obtain kvs1 where m: "modify (fst s) (snd s) kvs = Inr kvs1"
    and r: "run_steps ss kvs1 = Inr kvs'"
    by (auto simp: and_then_eq_Inr)
  note IH = Cons.IH [OF r]
  have "\<exists>v'. pipeline k (s # ss) v = Inr v' \<and> map_of kvs' k = Some v'"
    if kv: "map_of kvs k = Some v" for k v
  proof (cases "fst s = k")
    case True
    with modify_result(3) [OF m, of v] kv obtain v1 where "snd s v = Inr v1" "map_of kvs1 k = Some v1"
      by blast
    with IH True show ?thesis by auto
  next
    case False
    with modify_result(2) [OF m, of k] kv have "map_of kvs1 k = Some v" by simp
    with IH False show ?thesis by auto
  qed
  with IH modify_result(1) [OF m] show ?case by auto
qed

lemma run_steps_absent:
  assumes "run_steps ss kvs = Inr kvs'" and "map_of kvs k = None"
  shows "map_of kvs' k = None"
proof -
  from run_steps_fields [OF assms(1)] have "map fst kvs' = map fst kvs" by simp
  then have "fst ` set kvs' = fst ` set kvs" by (metis list.set_map)
  with assms(2) show ?thesis by (simp add: map_of_eq_None_iff)
qed

subsection \<open>The repairs on a dict, as modifications of one key\<close>

lemma py_setitem_dict: "py_setitem (PDict kvs) key = (\<lambda>v. Inr (PDict (AList.update key v kvs)))"
  by (rule ext) simp

lemma fix_number_dict:
  "fix_number coerce key (PDict kvs) =
     and_then (modify key (number_value coerce) kvs) (\<lambda>kvs'. Inr (PDict kvs'))"
  by (cases "map_of kvs key")
     (auto simp: fix_number_def modify_def number_value_def and_then_assoc update_triv py_setitem_dict)

lemma fix_header_number_dict:
  "fix_header_number coerce key (PDict kvs) =
     and_then (modify ''header'' (fix_number coerce key) kvs) (\<lambda>kvs'. Inr (PDict kvs'))"
proof (cases "map_of kvs ''header''")
  case None
  then show ?thesis by (simp add: fix_header_number_def modify_def)
next
  case (Some h)
  then show ?thesis
    by (cases "py_in key h"; cases "py_getitem h key")
       (auto simp: fix_header_number_def modify_def fix_number_def and_then_assoc update_triv py_setitem_dict)
qed

lemma fix_sentiment_dict:
  "fix_sentiment L (PDict kvs) =
     and_then (modify ''sentiment'' (repair_sentiment L) kvs) (\<lambda>kvs'. Inr (PDict kvs'))"
  by (cases "map_of kvs ''sentiment''")
     (auto simp: fix_sentiment_def modify_def and_then_assoc py_setitem_dict)

lemma fix_problem_distribution_dict:
  "fix_problem_distribution L (PDict kvs) =
     and_then (modify ''problem_distribution'' (problems_value L) kvs) (\<lambda>kvs'. Inr (PDict kvs'))"
proof (cases "map_of kvs ''problem_distribution''")
  case None
  then show ?thesis by (simp add: fix_problem_distribution_def modify_def)
next
  case (Some pd)
  then show ?thesis
    by (cases pd; cases "py_iter pd")
       (auto simp: fix_problem_distribution_def modify_def problems_value_def and_then_assoc
          update_triv py_setitem_dict)
qed

lemma truncate_field_dict:
  "truncate_field key n (PDict kvs) =
     and_then (modify key (truncate_value n) kvs) (\<lambda>kvs'. Inr (PDict kvs'))"
proof (cases "map_of kvs key")
  case None
  then show ?thesis by (simp add: truncate_field_def modify_def)
next
  case (Some v)
  then show ?thesis
    by (cases "py_len v")
       (auto simp: truncate_field_def modify_def truncate_value_def and_then_assoc update_triv py_setitem_dict)
qed

lemma truncate_samples_dict:
  "truncate_samples (PDict kvs) =
     and_then (modify ''sentiment'' (truncate_field ''samples'' 4) kvs) (\<lambda>kvs'. Inr (PDict kvs'))"
  by (cases "map_of kvs ''sentiment''")
     (auto simp: truncate_samples_def modify_def and_then_assoc py_setitem_dict)

lemma fix_enum_dict:
  "fix_enum key allowed dflt (PDict kvs) =
     and_then (modify key (enum_value allowed dflt) kvs) (\<lambda>kvs'. Inr (PDict kvs'))"
  by (cases "map_of kvs key")
     (auto simp: fix_enum_def modify_def enum_value_def update_triv)

lemma fix_enums_dict:
  "fix_enums (PDict kvs) =
     and_then (modify ''header'' header_enums kvs) (\<lambda>kvs'. Inr (PDict kvs'))"
  by (cases "map_of kvs ''header''")
     (auto simp: fix_enums_def modify_def header_enums_def and_then_assoc py_setitem_dict)

lemma validate_dict:
  "validate L (PDict kvs) =
     and_then (run_steps (validate_steps L) kvs) (\<lambda>kvs'. Inr (PDict kvs'))"
  by (simp add: validate_def truncate_arrays_def validate_steps_def fix_pain_index_def
      fix_star_rating_def fix_total_reports_def fix_number_dict fix_header_number_dict
      fix_sentiment_dict fix_problem_distribution_dict truncate_field_dict
      truncate_samples_dict fix_enums_dict and_then_assoc)

subsection \<open>The whole pass on a dict, key by key\<close>

lemma validate_fields:
  assumes "validate L (PDict kvs) = Inr d'"
  shows "\<exists>kvs'. d' = PDict kvs' \<and> map fst kvs' = map fst kvs \<and>
           (\<forall>k v. map_of kvs k = Some v \<longrightarrow>
              (\<exists>v'. pipeline k (validate_steps L) v = Inr v' \<and> map_of kvs' k = Some v')) \<and>
           (\<forall>k. map_of kvs k = None \<longrightarrow> map_of kvs' k = None)"
proof -
  from assms obtain kvs' where r: "run_steps (validate_steps L) kvs = Inr kvs'"
    and d': "d' = PDict kvs'"
    by (auto simp: validate_dict and_then_eq_Inr)
  from run_steps_fields [OF r] run_steps_absent [OF r] d' show ?thesis by blast
qed

lemma truncate_value_list: "truncate_value n (PList xs) = Inr (PList (take n xs))"
  by (simp add: truncate_value_def)


lemma pipeline_Nil: "pipeline k [] = Inr"
  by (rule ext) simp

lemma pipeline_Cons:
  "pipeline k (s # ss) =
     (if fst s = k then (\<lambda>v. and_then (snd s v) (pipeline k ss)) else pipeline k ss)"
  by (rule ext) simp

lemma pipeline_arrays_all:
  "list_all (\<lambda>kn. pipeline (fst kn) (validate_steps L) = truncate_value (snd kn)) array_bounds"
  by (simp add: array_bounds_def validate_steps_def pipeline_Nil pipeline_Cons)

lemma pipeline_arrays:
  "(k, n) \<in> set array_bounds \<Longrightarrow> pipeline k (validate_steps L) = truncate_value n"
  using pipeline_arrays_all [of L] unfolding list_all_iff by fastforce

lemma pipeline_pain_index:
  "pipeline ''pain_index'' (validate_steps L) v = number_value (coerce_pain_index L) v"
  by (simp add: validate_steps_def pipeline_Nil pipeline_Cons)

lemma pipeline_problem_distribution:
  "pipeline ''problem_distribution'' (validate_steps L) v = problems_value L v"
  by (simp add: validate_steps_def pipeline_Nil pipeline_Cons)

lemma pipeline_sentiment:
  "pipeline ''sentiment'' (validate_steps L) v =
     and_then (repair_sentiment L v) (truncate_field ''samples'' 4)"
  by (simp add: validate_steps_def pipeline_Nil pipeline_Cons)

lemma pipeline_header:
  "pipeline ''header'' (validate_steps L) v =
     and_then (fix_number (coerce_star_rating L) ''star_rating'' v) (\<lambda>h1.
     and_then (header_enums h1) (fix_number (coerce_count L) ''total_reports_24h''))"
  by (simp add: validate_steps_def pipeline_Nil pipeline_Cons)

subsection \<open>The header\<close>

lemma header_pipeline_dict:
  "pipeline ''header'' (validate_steps L) (PDict hk) =
     and_then (run_steps (header_steps L) hk) (\<lambda>hk'. Inr (PDict hk'))"
  by (simp add: pipeline_header header_enums_def header_steps_def fix_number_dict fix_enum_dict
      and_then_assoc)

lemma fix_number_not_dict:
  assumes "fix_number coerce key h = Inr h'" and "\<And>kvs. h \<noteq> PDict kvs"
  shows "h' = h"
  using assms
  by (cases h) (auto simp: fix_number_def and_then_eq_Inr split: if_splits)

lemma fix_enum_not_dict:
  assumes "fix_enum key allowed dflt h = Inr h'" and "\<And>kvs. h \<noteq> PDict kvs"
  shows "h' = h"
  using assms
  by (cases h) (auto simp: fix_enum_def and_then_eq_Inr split: if_splits)

lemma header_pipeline_not_dict:
  assumes "pipeline ''header'' (validate_steps L) h = Inr h'" and "\<And>kvs. h \<noteq> PDict kvs"
  shows "h' = h"
proof -
  from assms(1) obtain h1 h2 h3
    where 1: "fix_number (coerce_star_rating L) ''star_rating'' h = Inr h1"
      and 2: "fix_enum ''status'' [''good'', ''moderate'', ''major issues''] ''moderate'' h1 = Inr h2"
      and 3: "fix_enum ''status_color'' [''green'', ''yellow'', ''red''] ''yellow'' h2 = Inr h3"
      and 4: "fix_number (coerce_count L) ''total_reports_24h'' h3 = Inr h'"
    by (auto simp: pipeline_header header_enums_def and_then_eq_Inr)
  from fix_number_not_dict [OF 1 assms(2)] have "h1 = h" .
  with fix_enum_not_dict [OF 2] assms(2) have "h2 = h" by simp
  with fix_enum_not_dict [OF 3] assms(2) have "h3 = h" by simp
  with fix_number_not_dict [OF 4] assms(2) show ?thesis by simp
qed

subsection \<open>The sentiment dict\<close>

lemma clamp_loop_dict:
  "fold_err (clamp_sentiment_key L) [''negative'', ''neutral'', ''positive''] (PDict sk) =
     and_then (run_steps (sentiment_steps L) sk) (\<lambda>sk'. Inr (PDict sk'))"
  by (simp add: clamp_sentiment_key_def sentiment_steps_def fix_number_dict and_then_assoc)

lemma renormalize_dict:
  assumes "renormalize (PDict sk) tot = Inr s'"
  obtains n u where "s' = PDict (AList.update ''positive'' (PInt (100 - n - u))
                      (AList.update ''neutral'' (PInt u) (AList.update ''negative'' (PInt n) sk)))"
  using assms
  by (auto simp: renormalize_def Let_def and_then_eq_Inr)

lemma repair_sentiment_dict:
  assumes "repair_sentiment L (PDict sk) = Inr s'"
  shows "\<exists>sk'. s' = PDict sk' \<and>
           (\<forall>k. k \<notin> {''negative'', ''neutral'', ''positive''} \<longrightarrow> map_of sk' k = map_of sk k)"
proof -
  from assms obtain sk1 where loop: "run_steps (sentiment_steps L) sk = Inr sk1"
    and rest: "s' = PDict sk1 \<or> (\<exists>tot. renormalize (PDict sk1) tot = Inr s')"
    unfolding repair_sentiment_def clamp_loop_dict
    by (auto simp: and_then_eq_Inr split: if_splits)
  have keep1: "map_of sk1 k = map_of sk k" if "k \<notin> {''negative'', ''neutral'', ''positive''}" for k
  proof (cases "map_of sk k")
    case None
    with run_steps_absent [OF loop] show ?thesis by simp
  next
    case (Some v)
    from run_steps_fields [OF loop] Some obtain v'
      where "pipeline k (sentiment_steps L) v = Inr v'" "map_of sk1 k = Some v'" by blast
    with that Some show ?thesis by (auto simp: sentiment_steps_def)
  qed
  from rest show ?thesis
  proof
    assume "s' = PDict sk1"
    with keep1 show ?thesis by blast
  next
    assume "\<exists>tot. renormalize (PDict sk1) tot = Inr s'"
    then obtain tot where "renormalize (PDict sk1) tot = Inr s'" ..
    from renormalize_dict [OF this] obtain n u
      where s': "s' = PDict (AList.update ''positive'' (PInt (100 - n - u))
                      (AList.update ''neutral'' (PInt u) (AList.update ''negative'' (PInt n) sk1)))" .
    have "map_of (AList.update ''positive'' (PInt (100 - n - u))
                      (AList.update ''neutral'' (PInt u) (AList.update ''negative'' (PInt n) sk1))) k
                 = map_of sk k" if "k \<notin> {''negative'', ''neutral'', ''positive''}" for k
      using keep1 [OF that] that by (simp add: update_conv')
    with s' show ?thesis by blast
  qed
qed

lemma sentiment_pipeline_samples:
  assumes "pipeline ''sentiment'' (validate_steps L) (PDict sk) = Inr s'"
  shows "\<exists>sk'. s' = PDict sk' \<and>
           (case map_of sk ''samples'' of
              None \<Rightarrow> map_of sk' ''samples'' = None
            | Some v \<Rightarrow> \<exists>v'. truncate_value 4 v = Inr v' \<and> map_of sk' ''samples'' = Some v')"
proof -
  from assms obtain s1 where 1: "repair_sentiment L (PDict sk) = Inr s1"
    and 2: "truncate_field ''samples'' 4 s1 = Inr s'"
    by (auto simp: pipeline_sentiment and_then_eq_Inr)
  from repair_sentiment_dict [OF 1] obtain sk1 where s1: "s1 = PDict sk1"
    and others: "\<forall>k. k \<notin> {''negative'', ''neutral'', ''positive''} \<longrightarrow> map_of sk1 k = map_of sk k"
    by (elim exE conjE)
  from others [rule_format, of "''samples''"]
  have keep: "map_of sk1 ''samples'' = map_of sk ''samples''" by simp
  from 2 s1 obtain sk' where m: "modify ''samples'' (truncate_value 4) sk1 = Inr sk'" and s': "s' = PDict sk'"
    by (auto simp: truncate_field_dict and_then_eq_Inr)
  show ?thesis
  proof (cases "map_of sk ''samples''")
    case None
    with m keep s' show ?thesis by (simp add: modify_def)
  next
    case (Some v)
    with modify_result(3) [OF m, of v] keep s' show ?thesis by simp
  qed
qed

section \<open>Numeric ranges\<close>

text \<open>
  What the coercions guarantee when they return: a float in \<open>[0, 10]\<close>, a float in
  \<open>[0, 5]\<close>, an int in \<open>[0, 100]\<close>, an int from 0 on.
\<close>

lemma clamp_float_range:
  assumes "0 \<le> hi"
  shows "\<exists>q. py_max (Finite 0) (py_min (Finite hi) f) = Finite q \<and> 0 \<le> q \<and> q \<le> hi"
  using assms by (cases f) (auto simp: py_max_def py_min_def)

lemma coerce_pain_index_range:
  assumes "coerce_pain_index L v = Inr x"
  shows "\<exists>q. x = PFloat (Finite q) \<and> 0 \<le> q \<and> q \<le> 10"
proof (cases "py_float L v")
  case (Inl e)
  with assms show ?thesis
    by (auto simp: coerce_pain_index_def except_value_type_def split: if_splits)
next
  case (Inr f)
  with assms clamp_float_range [of 10 "py_round_digits f 1"] show ?thesis
    by (auto simp: coerce_pain_index_def except_value_type_def)
qed

lemma coerce_star_rating_range:
  assumes "coerce_star_rating L v = Inr x"
  shows "\<exists>q. x = PFloat (Finite q) \<and> 0 \<le> q \<and> q \<le> 5"
proof (cases "py_float L v")
  case (Inl e)
  with assms show ?thesis
    by (auto simp: coerce_star_rating_def except_value_type_def split: if_splits)
next
  case (Inr f)
  with assms clamp_float_range [of 5 "py_round_digits f 2"] show ?thesis
    by (auto simp: coerce_star_rating_def except_value_type_def)
qed

lemma coerce_percent_range:
  assumes "coerce_percent L v = Inr x"
  shows "\<exists>i. x = PInt i \<and> 0 \<le> i \<and> i \<le> 100"
proof (cases "py_float L v")
  case (Inl e)
  with assms show ?thesis
    by (auto simp: coerce_percent_def except_value_type_def split: if_splits)
next
  case (Inr f)
  with assms show ?thesis
    by (cases "py_round f")
       (auto simp: coerce_percent_def except_value_type_def split: if_splits)
qed

lemma coerce_count_range:
  assumes "coerce_count L v = Inr x"
  shows "\<exists>i. x = PInt i \<and> 0 \<le> i"
  using assms
  by (cases "py_int L v") (auto simp: coerce_count_def except_value_type_def split: if_splits)

text \<open>
  The examples of the specification: \<^verbatim>\<open>pain_index: 14.37\<close> becomes \<^verbatim>\<open>10.0\<close> and
  \<^verbatim>\<open>star_rating: -1.2\<close> becomes \<^verbatim>\<open>0.0\<close> (the candidates hold the floats nearest to the
  two decimals).
\<close>

lemma pain_index_example:
  "validate no_numeric_strings (PDict [(''pain_index'', PFloat (Finite (fp_round (1437 / 100))))])
     = Inr (PDict [(''pain_index'', PFloat (Finite 10))])"
  by code_simp

lemma star_rating_example:
  "validate no_numeric_strings
     (PDict [(''header'', PDict [(''star_rating'', PFloat (Finite (fp_round (- 12 / 10))))])])
     = Inr (PDict [(''header'', PDict [(''star_rating'', PFloat (Finite 0))])])"
  by code_simp

text \<open>
  C2. Every numeric contract field that is present and not null is within its closed
  range after validation. The code breaks this for the sentiment triple: the candidate
  \<^verbatim>\<open>{"sentiment": {"negative": 9, "neutral": 15, "positive": 0}}\<close> has total 24, the float
  \<^verbatim>\<open>100 / 24\<close> lies above \<open>25/6\<close>, the products \<^verbatim>\<open>9 * scale = 37.5\<close> and
  \<^verbatim>\<open>15 * scale = 62.50000000000001\<close> round to 38 and 63, and \<^verbatim>\<open>positive\<close> becomes
  \<open>100 - 38 - 63 = -1\<close>, outside \<open>[0, 100]\<close>.
\<close>

theorem sentiment_positive_below_range:
  "validate no_numeric_strings
     (PDict [(''sentiment'',
        PDict [(''negative'', PInt 9), (''neutral'', PInt 15), (''positive'', PInt 0)])])
   = Inr (PDict [(''sentiment'',
        PDict [(''negative'', PInt 38), (''neutral'', PInt 63), (''positive'', PInt (- 1))])])"
  by code_simp

text \<open>
  A second way out of the ranges: an infinite sentiment value (the JSON number
  \<^verbatim>\<open>1e999\<close>) raises OverflowError in \<^verbatim>\<open>round\<close>, which the \<^verbatim>\<open>except\<close> clause does not name,
  so there is no validated payload at all.
\<close>

lemma sentiment_infinite_raises:
  "validate L (PDict [(''sentiment'', PDict [(''negative'', PFloat PosInf)])]) = Inl OverflowError"
  by (simp add: validate_dict validate_steps_def modify_def repair_sentiment_def
      clamp_sentiment_key_def fix_number_def coerce_percent_def except_value_type_def)

text \<open>
  C3. Validating an already validated payload gives the same payload. The code breaks
  this on the candidate of C2: the second pass clamps \<open>-1\<close> to \<open>0\<close>, finds the total
  101 and rescales again, so \<^verbatim>\<open>neutral\<close> goes from 63 to 62 and \<^verbatim>\<open>positive\<close> from -1 to 0.
\<close>

theorem validate_twice_differs:
  "and_then
     (validate no_numeric_strings
        (PDict [(''sentiment'',
           PDict [(''negative'', PInt 9), (''neutral'', PInt 15), (''positive'', PInt 0)])]))
     (validate no_numeric_strings)
   = Inr (PDict [(''sentiment'',
        PDict [(''negative'', PInt 38), (''neutral'', PInt 62), (''positive'', PInt 0)])])
   \<and> validate no_numeric_strings
        (PDict [(''sentiment'',
           PDict [(''negative'', PInt 9), (''neutral'', PInt 15), (''positive'', PInt 0)])])
     \<noteq> Inr (PDict [(''sentiment'',
        PDict [(''negative'', PInt 38), (''neutral'', PInt 62), (''positive'', PInt 0)])])"
  by code_simp

section \<open>Array truncation\<close>

lemma dict_get_SomeD:
  assumes "dict_get d k = Some v"
  obtains kvs where "d = PDict kvs" and "map_of kvs k = Some v"
  using assms by (cases d) auto

lemma dict_get2_SomeD:
  assumes "dict_get2 d k1 k2 = Some v"
  obtains kvs hk where "d = PDict kvs" and "map_of kvs k1 = Some (PDict hk)"
    and "map_of hk k2 = Some v"
proof -
  from assms obtain h where 1: "dict_get d k1 = Some h" and 2: "dict_get h k2 = Some v"
    by (auto simp: dict_get2_def split: option.splits)
  from dict_get_SomeD [OF 1] dict_get_SomeD [OF 2] that show thesis by metis
qed

lemma truncated_list: "(if n < length xs then take n xs else xs) = take n xs"
  by simp

lemma validate_truncates_top:
  assumes v: "validate L d = Inr d'" and b: "(k, n) \<in> set array_bounds"
    and g: "dict_get d k = Some (PList xs)"
  shows "dict_get d' k = Some (PList (take n xs))"
proof -
  from dict_get_SomeD [OF g] obtain kvs where d: "d = PDict kvs"
    and kv: "map_of kvs k = Some (PList xs)" .
  from validate_fields [OF v [unfolded d]] obtain kvs' where d': "d' = PDict kvs'"
    and f: "\<forall>k v. map_of kvs k = Some v \<longrightarrow>
           (\<exists>v'. pipeline k (validate_steps L) v = Inr v' \<and> map_of kvs' k = Some v')"
    by (elim exE conjE)
  from f [rule_format, OF kv] obtain v' where "pipeline k (validate_steps L) (PList xs) = Inr v'"
    and "map_of kvs' k = Some v'" by blast
  with pipeline_arrays [OF b, of L] d' show ?thesis by (simp add: truncate_value_list)
qed

lemma validate_truncates_samples:
  assumes v: "validate L d = Inr d'"
    and g: "dict_get2 d ''sentiment'' ''samples'' = Some (PList ys)"
  shows "dict_get2 d' ''sentiment'' ''samples'' = Some (PList (take 4 ys))"
proof -
  from dict_get2_SomeD [OF g] obtain kvs sk where d: "d = PDict kvs"
    and kv: "map_of kvs ''sentiment'' = Some (PDict sk)"
    and sv: "map_of sk ''samples'' = Some (PList ys)" .
  from validate_fields [OF v [unfolded d]] obtain kvs' where d': "d' = PDict kvs'"
    and f: "\<forall>k v. map_of kvs k = Some v \<longrightarrow>
           (\<exists>v'. pipeline k (validate_steps L) v = Inr v' \<and> map_of kvs' k = Some v')"
    by (elim exE conjE)
  from f [rule_format, OF kv] obtain s' where p: "pipeline ''sentiment'' (validate_steps L) (PDict sk) = Inr s'"
    and k': "map_of kvs' ''sentiment'' = Some s'" by blast
  from sentiment_pipeline_samples [OF p] sv obtain sk' where "s' = PDict sk'"
    and "map_of sk' ''samples'' = Some (PList (take 4 ys))"
    by (auto simp: truncate_value_list)
  with d' k' show ?thesis by (simp add: dict_get2_def)
qed

text \<open>
  C6. Every bounded array field present in the candidate that is longer than its bound is
  truncated to the first N items. As stated this fails for a candidate on which an
  earlier repair raises: with seven \<^verbatim>\<open>key_metrics\<close> beside \<^verbatim>\<open>sentiment.negative\<close> null,
  the sum of line 233 is \<^verbatim>\<open>None + 0\<close>, a TypeError that nothing catches, and the call
  ends before the truncation of line 251, with no payload at all.
\<close>

theorem seven_metrics_not_truncated:
  "dict_get seven_metrics_null_sentiment ''key_metrics''
     = Some (PList [PInt 1, PInt 2, PInt 3, PInt 4, PInt 5, PInt 6, PInt 7])
   \<and> validate no_numeric_strings seven_metrics_null_sentiment = Inl TypeError"
  by code_simp

text \<open>
  C6, amended. For every candidate on which the repair pass completes and every bounded
  array field present in it (\<^verbatim>\<open>key_metrics\<close> 5, \<^verbatim>\<open>active_outages\<close> 10,
  \<^verbatim>\<open>geographic_hotspots\<close> 5, \<^verbatim>\<open>recent_activity\<close> 8, \<^verbatim>\<open>critical_insights\<close> 4,
  \<^verbatim>\<open>recommendations\<close> 3, \<^verbatim>\<open>sentiment.samples\<close> 4), the validated payload holds the first
  N items in their order when the array is longer than its bound N, and the array
  unchanged when it is not.
\<close>

theorem validate_truncates_arrays:
  assumes "validate L d = Inr d'"
  shows "((k, n) \<in> set array_bounds \<and> dict_get d k = Some (PList xs) \<longrightarrow>
            dict_get d' k = Some (PList (if n < length xs then take n xs else xs)))
       \<and> (dict_get2 d ''sentiment'' ''samples'' = Some (PList ys) \<longrightarrow>
            dict_get2 d' ''sentiment'' ''samples''
              = Some (PList (if 4 < length ys then take 4 ys else ys)))"
  unfolding truncated_list
  using validate_truncates_top [OF assms] validate_truncates_samples [OF assms] by blast

theorem validate_truncates_arrays_witness:
  "validate no_numeric_strings long_candidate = Inr long_candidate_validated
   \<and> (''key_metrics'', 5) \<in> set array_bounds
   \<and> dict_get long_candidate_validated ''key_metrics''
       = Some (PList [PInt 1, PInt 2, PInt 3, PInt 4, PInt 5])
   \<and> (''recommendations'', 3) \<in> set array_bounds
   \<and> dict_get long_candidate_validated ''recommendations'' = Some (PList [PStr ''a'', PStr ''b''])
   \<and> dict_get2 long_candidate_validated ''sentiment'' ''samples''
       = Some (PList [PInt 1, PInt 2, PInt 3, PInt 4])"
proof -
  have v: "validate no_numeric_strings long_candidate = Inr long_candidate_validated"
    by code_simp
  have k: "(''key_metrics'', 5) \<in> set array_bounds" and r: "(''recommendations'', 3) \<in> set array_bounds"
    by (simp_all add: array_bounds_def)
  from validate_truncates_arrays [OF v, of "''key_metrics''" 5
      "[PInt 1, PInt 2, PInt 3, PInt 4, PInt 5, PInt 6, PInt 7]"
      "[PInt 1, PInt 2, PInt 3, PInt 4, PInt 5]"]
    validate_truncates_arrays [OF v, of "''recommendations''" 3 "[PStr ''a'', PStr ''b'']"
      "[PInt 1, PInt 2, PInt 3, PInt 4, PInt 5]"]
    v k r
  show ?thesis
    by (simp add: long_candidate_def dict_get2_def)
qed

section \<open>Enum values\<close>

lemma validate_header_fields:
  assumes v: "validate L d = Inr d'" and g: "dict_get2 d ''header'' k = Some x"
  shows "\<exists>x'. pipeline k (header_steps L) x = Inr x' \<and> dict_get2 d' ''header'' k = Some x'"
proof -
  from dict_get2_SomeD [OF g] obtain kvs hk where d: "d = PDict kvs"
    and kv: "map_of kvs ''header'' = Some (PDict hk)"
    and hv: "map_of hk k = Some x" .
  from validate_fields [OF v [unfolded d]] obtain kvs' where d': "d' = PDict kvs'"
    and f: "\<forall>k v. map_of kvs k = Some v \<longrightarrow>
           (\<exists>v'. pipeline k (validate_steps L) v = Inr v' \<and> map_of kvs' k = Some v')"
    by (elim exE conjE)
  from f [rule_format, OF kv] obtain h' where p: "pipeline ''header'' (validate_steps L) (PDict hk) = Inr h'"
    and k': "map_of kvs' ''header'' = Some h'" by blast
  from p obtain hk' where r: "run_steps (header_steps L) hk = Inr hk'" and h': "h' = PDict hk'"
    by (auto simp: header_pipeline_dict and_then_eq_Inr)
  from run_steps_fields [OF r] hv obtain x' where "pipeline k (header_steps L) x = Inr x'"
    and "map_of hk' k = Some x'" by blast
  with d' k' h' show ?thesis by (simp add: dict_get2_def)
qed

lemma pipeline_status:
  "pipeline ''status'' (header_steps L) =
     enum_value [''good'', ''moderate'', ''major issues''] ''moderate''"
  by (simp add: header_steps_def pipeline_Cons pipeline_Nil)

lemma pipeline_status_color:
  "pipeline ''status_color'' (header_steps L) = enum_value [''green'', ''yellow'', ''red''] ''yellow''"
  by (simp add: header_steps_def pipeline_Cons pipeline_Nil)

lemma pipeline_star_rating:
  "pipeline ''star_rating'' (header_steps L) = number_value (coerce_star_rating L)"
  by (simp add: header_steps_def pipeline_Cons pipeline_Nil)

lemma pipeline_total_reports:
  "pipeline ''total_reports_24h'' (header_steps L) = number_value (coerce_count L)"
  by (simp add: header_steps_def pipeline_Cons pipeline_Nil)

text \<open>
  C7. A present \<^verbatim>\<open>header.status\<close> outside the allowed set is replaced with \<^verbatim>\<open>moderate\<close>.
  As stated this fails for a candidate on which an earlier repair raises: with status
  \<^verbatim>\<open>outage\<close> beside \<^verbatim>\<open>key_metrics\<close> null, \<^verbatim>\<open>len(None)\<close> of line 251 is a TypeError that
  nothing catches, and the call ends before the enum step of line 268, with no payload
  at all.
\<close>

theorem outage_status_not_replaced:
  "dict_get2 outage_status_null_metrics ''header'' ''status'' = Some (PStr ''outage'')
   \<and> validate no_numeric_strings outage_status_null_metrics = Inl TypeError"
  by code_simp

text \<open>
  C7, amended. For every candidate on which the repair pass completes: when
  \<^verbatim>\<open>header.status\<close> is present, a value outside \<^verbatim>\<open>good\<close>, \<^verbatim>\<open>moderate\<close>, \<^verbatim>\<open>major issues\<close>
  is replaced with \<^verbatim>\<open>moderate\<close>; when \<^verbatim>\<open>header.status_color\<close> is present, a value outside
  \<^verbatim>\<open>green\<close>, \<^verbatim>\<open>yellow\<close>, \<^verbatim>\<open>red\<close> is replaced with \<^verbatim>\<open>yellow\<close>; a value inside the allowed
  set is kept. In particular status \<^verbatim>\<open>outage\<close> becomes \<^verbatim>\<open>moderate\<close>.
\<close>

theorem validate_enum_defaults:
  assumes "validate L d = Inr d'"
  shows "(dict_get2 d ''header'' ''status'' = Some s \<longrightarrow>
            dict_get2 d' ''header'' ''status''
              = Some (if s \<in> {PStr ''good'', PStr ''moderate'', PStr ''major issues''} then s
                      else PStr ''moderate''))
       \<and> (dict_get2 d ''header'' ''status_color'' = Some c \<longrightarrow>
            dict_get2 d' ''header'' ''status_color''
              = Some (if c \<in> {PStr ''green'', PStr ''yellow'', PStr ''red''} then c
                      else PStr ''yellow''))"
proof (intro conjI impI)
  assume "dict_get2 d ''header'' ''status'' = Some s"
  from validate_header_fields [OF assms this]
  show "dict_get2 d' ''header'' ''status''
          = Some (if s \<in> {PStr ''good'', PStr ''moderate'', PStr ''major issues''} then s
                  else PStr ''moderate'')"
    by (auto simp: pipeline_status enum_value_def)
next
  assume "dict_get2 d ''header'' ''status_color'' = Some c"
  from validate_header_fields [OF assms this]
  show "dict_get2 d' ''header'' ''status_color''
          = Some (if c \<in> {PStr ''green'', PStr ''yellow'', PStr ''red''} then c
                  else PStr ''yellow'')"
    by (auto simp: pipeline_status_color enum_value_def)
qed

theorem validate_enum_defaults_witness:
  "validate no_numeric_strings long_candidate = Inr long_candidate_validated
   \<and> dict_get2 long_candidate ''header'' ''status'' = Some (PStr ''outage'')
   \<and> dict_get2 long_candidate_validated ''header'' ''status'' = Some (PStr ''moderate'')
   \<and> dict_get2 long_candidate ''header'' ''status_color'' = Some (PStr ''red'')
   \<and> dict_get2 long_candidate_validated ''header'' ''status_color'' = Some (PStr ''red'')"
proof -
  have v: "validate no_numeric_strings long_candidate = Inr long_candidate_validated"
    by code_simp
  from validate_enum_defaults [OF v, of "PStr ''outage''" "PStr ''red''"] v
  show ?thesis
    by (simp add: long_candidate_def dict_get2_def)
qed

section \<open>Absent keys and null values\<close>

lemma dict_get2_NoneD:
  assumes "dict_get2 (PDict kvs) k1 k2 = None"
  shows "map_of kvs k1 = None \<or> (\<exists>h. map_of kvs k1 = Some h \<and> dict_get h k2 = None)"
  using assms by (auto simp: dict_get2_def split: option.splits)

lemma validate_header_absent:
  assumes v: "validate L (PDict kvs) = Inr d'"
    and g: "dict_get2 (PDict kvs) ''header'' k = None"
  shows "dict_get2 d' ''header'' k = None"
proof -
  from validate_fields [OF v] obtain kvs' where d': "d' = PDict kvs'"
    and f: "\<forall>k v. map_of kvs k = Some v \<longrightarrow>
           (\<exists>v'. pipeline k (validate_steps L) v = Inr v' \<and> map_of kvs' k = Some v')"
    and a: "\<forall>k. map_of kvs k = None \<longrightarrow> map_of kvs' k = None"
    by (elim exE conjE)
  from dict_get2_NoneD [OF g] show ?thesis
  proof
    assume "map_of kvs ''header'' = None"
    with a d' show ?thesis by (simp add: dict_get2_def)
  next
    assume "\<exists>h. map_of kvs ''header'' = Some h \<and> dict_get h k = None"
    then obtain h where kv: "map_of kvs ''header'' = Some h" and hk: "dict_get h k = None" by blast
    from f [rule_format, OF kv] obtain h' where p: "pipeline ''header'' (validate_steps L) h = Inr h'"
      and k': "map_of kvs' ''header'' = Some h'" by blast
    have "dict_get h' k = None"
    proof (cases "\<exists>hk. h = PDict hk")
      case True
      then obtain hk where h: "h = PDict hk" ..
      from p h obtain hk' where r: "run_steps (header_steps L) hk = Inr hk'" and h': "h' = PDict hk'"
        by (auto simp: header_pipeline_dict and_then_eq_Inr)
      from hk h run_steps_absent [OF r] h' show ?thesis by simp
    next
      case False
      with header_pipeline_not_dict [OF p] hk show ?thesis by simp
    qed
    with d' k' show ?thesis by (simp add: dict_get2_def)
  qed
qed

lemma repair_sentiment_needs_dict:
  assumes "repair_sentiment L s = Inr s'"
  shows "\<exists>sk. s = PDict sk"
proof (rule ccontr)
  assume n: "\<nexists>sk. s = PDict sk"
  from assms obtain s1 where l: "fold_err (clamp_sentiment_key L) [''negative'', ''neutral'', ''positive''] s = Inr s1"
    and g: "\<exists>a. py_get s1 ''negative'' (PInt 0) = Inr a"
    unfolding repair_sentiment_def by (auto simp: and_then_eq_Inr)
  from l obtain a b where "fix_number (coerce_percent L) ''negative'' s = Inr a"
    and "fix_number (coerce_percent L) ''neutral'' a = Inr b"
    and "fix_number (coerce_percent L) ''positive'' b = Inr s1"
    by (auto simp: clamp_sentiment_key_def and_then_eq_Inr)
  with n have "s1 = s" by (metis fix_number_not_dict)
  with n g show False by (cases s) auto
qed

lemma validate_samples_absent:
  assumes v: "validate L (PDict kvs) = Inr d'"
    and g: "dict_get2 (PDict kvs) ''sentiment'' ''samples'' = None"
  shows "dict_get2 d' ''sentiment'' ''samples'' = None"
proof -
  from validate_fields [OF v] obtain kvs' where d': "d' = PDict kvs'"
    and f: "\<forall>k v. map_of kvs k = Some v \<longrightarrow>
           (\<exists>v'. pipeline k (validate_steps L) v = Inr v' \<and> map_of kvs' k = Some v')"
    and a: "\<forall>k. map_of kvs k = None \<longrightarrow> map_of kvs' k = None"
    by (elim exE conjE)
  from dict_get2_NoneD [OF g] show ?thesis
  proof
    assume "map_of kvs ''sentiment'' = None"
    with a d' show ?thesis by (simp add: dict_get2_def)
  next
    assume "\<exists>h. map_of kvs ''sentiment'' = Some h \<and> dict_get h ''samples'' = None"
    then obtain h where kv: "map_of kvs ''sentiment'' = Some h"
      and hk: "dict_get h ''samples'' = None" by blast
    from f [rule_format, OF kv] obtain h' where p: "pipeline ''sentiment'' (validate_steps L) h = Inr h'"
      and k': "map_of kvs' ''sentiment'' = Some h'" by blast
    from p obtain s1 where "repair_sentiment L h = Inr s1"
      by (auto simp: pipeline_sentiment and_then_eq_Inr)
    from repair_sentiment_needs_dict [OF this] obtain sk where h: "h = PDict sk" ..
    from sentiment_pipeline_samples [OF p [unfolded h]] hk h
    have "dict_get h' ''samples'' = None" by auto
    with d' k' show ?thesis by (simp add: dict_get2_def)
  qed
qed

lemma validate_top_fields:
  assumes v: "validate L d = Inr d'" and g: "dict_get d k = Some x"
  shows "\<exists>x'. pipeline k (validate_steps L) x = Inr x' \<and> dict_get d' k = Some x'"
proof -
  from dict_get_SomeD [OF g] obtain kvs where d: "d = PDict kvs"
    and kv: "map_of kvs k = Some x" .
  from validate_fields [OF v [unfolded d]] obtain kvs' where d': "d' = PDict kvs'"
    and f: "\<forall>k v. map_of kvs k = Some v \<longrightarrow>
           (\<exists>v'. pipeline k (validate_steps L) v = Inr v' \<and> map_of kvs' k = Some v')"
    by (elim exE conjE)
  from f [rule_format, OF kv] d' show ?thesis by simp
qed

lemma map_err_nth:
  "map_err f xs = Inr ys \<Longrightarrow>
     length ys = length xs \<and> (\<forall>i<length xs. f (xs ! i) = Inr (ys ! i))"
proof (induction xs arbitrary: ys)
  case Nil
  then show ?case by simp
next
  case (Cons x xs)
  from Cons.prems obtain y ys' where y: "f x = Inr y" and r: "map_err f xs = Inr ys'"
    and ys: "ys = y # ys'"
    by (auto simp: and_then_eq_Inr)
  from Cons.IH [OF r] y ys show ?case by (auto simp: nth_Cons split: nat.splits)
qed

lemma fix_problem_percent:
  assumes "fix_problem L p = Inr p'"
  shows "(dict_get p ''percent'' = None \<longrightarrow> dict_get p' ''percent'' = None)
       \<and> (dict_get p ''percent'' = Some PNone \<longrightarrow> dict_get p' ''percent'' = Some PNone)"
proof (cases "\<exists>pk. p = PDict pk")
  case True
  then obtain pk where p: "p = PDict pk" ..
  from assms p obtain pk' where m: "modify ''percent'' (number_value (coerce_percent L)) pk = Inr pk'"
    and p': "p' = PDict pk'"
    by (auto simp: fix_problem_def fix_number_dict and_then_eq_Inr)
  from m p p' show ?thesis
    by (auto simp: modify_def number_value_def update_conv' and_then_eq_Inr split: option.splits)
next
  case False
  with fix_number_not_dict [of "coerce_percent L" "''percent''" p p'] assms
  have "p' = p" by (simp add: fix_problem_def)
  with False show ?thesis by (cases p) auto
qed

lemma validate_problem_percents:
  assumes v: "validate L d = Inr d'"
    and g: "dict_get d ''problem_distribution'' = Some (PList items)"
  shows "\<exists>items'. dict_get d' ''problem_distribution'' = Some (PList items') \<and>
           length items' = length items \<and>
           (\<forall>i<length items.
              (dict_get (items ! i) ''percent'' = None \<longrightarrow>
                 dict_get (items' ! i) ''percent'' = None) \<and>
              (dict_get (items ! i) ''percent'' = Some PNone \<longrightarrow>
                 dict_get (items' ! i) ''percent'' = Some PNone))"
proof -
  from validate_top_fields [OF v g] obtain x'
    where "problems_value L (PList items) = Inr x'"
      and x': "dict_get d' ''problem_distribution'' = Some x'"
    by (auto simp: pipeline_problem_distribution)
  then obtain items' where m: "map_err (fix_problem L) items = Inr items'" and "x' = PList items'"
    by (auto simp: problems_value_def and_then_eq_Inr)
  with x' map_err_nth [OF m] fix_problem_percent show ?thesis by auto
qed

text \<open>
  The keys of the sentiment dict after its repairs: those of the candidate, unless the
  triple was rescaled, and then the three keys hold ints that sum to 100.
\<close>

lemma repair_sentiment_keys:
  assumes "repair_sentiment L (PDict sk) = Inr s'"
  shows "\<exists>sk'. s' = PDict sk' \<and>
           (map fst sk' = map fst sk
            \<or> (\<exists>n u. map_of sk' ''negative'' = Some (PInt n) \<and> map_of sk' ''neutral'' = Some (PInt u)
                  \<and> map_of sk' ''positive'' = Some (PInt (100 - n - u))))"
proof -
  from assms obtain sk1 where loop: "run_steps (sentiment_steps L) sk = Inr sk1"
    and rest: "s' = PDict sk1 \<or> (\<exists>tot. renormalize (PDict sk1) tot = Inr s')"
    unfolding repair_sentiment_def clamp_loop_dict
    by (auto simp: and_then_eq_Inr split: if_splits)
  from run_steps_fields [OF loop] have keys: "map fst sk1 = map fst sk" by simp
  from rest show ?thesis
  proof
    assume "s' = PDict sk1"
    with keys show ?thesis by simp
  next
    assume "\<exists>tot. renormalize (PDict sk1) tot = Inr s'"
    then obtain tot where "renormalize (PDict sk1) tot = Inr s'" ..
    from renormalize_dict [OF this] obtain n u
      where s': "s' = PDict (AList.update ''positive'' (PInt (100 - n - u))
                      (AList.update ''neutral'' (PInt u) (AList.update ''negative'' (PInt n) sk1)))" .
    then show ?thesis by (simp add: update_conv')
  qed
qed

lemma truncate_samples_keeps:
  assumes "truncate_field ''samples'' 4 (PDict sk) = Inr s'"
  shows "\<exists>sk'. s' = PDict sk' \<and> map fst sk' = map fst sk \<and>
           (\<forall>k. k \<noteq> ''samples'' \<longrightarrow> map_of sk' k = map_of sk k)"
proof -
  from assms obtain sk' where m: "modify ''samples'' (truncate_value 4) sk = Inr sk'"
    and s': "s' = PDict sk'"
    by (auto simp: truncate_field_dict and_then_eq_Inr)
  from modify_result(1,2) [OF m] s' show ?thesis by simp
qed

lemma map_of_None_keys: "map fst kvs' = map fst kvs \<Longrightarrow> map_of kvs k = None \<Longrightarrow> map_of kvs' k = None"
  by (metis list.set_map map_of_eq_None_iff)

lemma validate_sentiment_keys:
  assumes v: "validate L (PDict kvs) = Inr d'"
    and g: "dict_get2 (PDict kvs) ''sentiment'' k = None"
  shows "dict_get2 d' ''sentiment'' k = None
         \<or> (\<exists>n u. dict_get2 d' ''sentiment'' ''negative'' = Some (PInt n)
               \<and> dict_get2 d' ''sentiment'' ''neutral'' = Some (PInt u)
               \<and> dict_get2 d' ''sentiment'' ''positive'' = Some (PInt (100 - n - u)))"
proof -
  from validate_fields [OF v] obtain kvs' where d': "d' = PDict kvs'"
    and f: "\<forall>k v. map_of kvs k = Some v \<longrightarrow>
           (\<exists>v'. pipeline k (validate_steps L) v = Inr v' \<and> map_of kvs' k = Some v')"
    and a: "\<forall>k. map_of kvs k = None \<longrightarrow> map_of kvs' k = None"
    by (elim exE conjE)
  from dict_get2_NoneD [OF g] show ?thesis
  proof
    assume "map_of kvs ''sentiment'' = None"
    with a d' show ?thesis by (simp add: dict_get2_def)
  next
    assume "\<exists>h. map_of kvs ''sentiment'' = Some h \<and> dict_get h k = None"
    then obtain h where kv: "map_of kvs ''sentiment'' = Some h"
      and hk: "dict_get h k = None" by blast
    from f [rule_format, OF kv] obtain h' where p: "pipeline ''sentiment'' (validate_steps L) h = Inr h'"
      and k': "map_of kvs' ''sentiment'' = Some h'" by blast
    from p obtain s1 where r: "repair_sentiment L h = Inr s1"
      and t: "truncate_field ''samples'' 4 s1 = Inr h'"
      by (auto simp: pipeline_sentiment and_then_eq_Inr)
    from repair_sentiment_needs_dict [OF r] obtain sk where h: "h = PDict sk" ..
    from repair_sentiment_keys [OF r [unfolded h]] obtain sk1 where s1: "s1 = PDict sk1"
      and alt: "map fst sk1 = map fst sk
            \<or> (\<exists>n u. map_of sk1 ''negative'' = Some (PInt n) \<and> map_of sk1 ''neutral'' = Some (PInt u)
                  \<and> map_of sk1 ''positive'' = Some (PInt (100 - n - u)))"
      by (elim exE conjE)
    from truncate_samples_keeps [OF t [unfolded s1]] obtain sk' where h': "h' = PDict sk'"
      and keys: "map fst sk' = map fst sk1"
      and others: "\<forall>k. k \<noteq> ''samples'' \<longrightarrow> map_of sk' k = map_of sk1 k"
      by (elim exE conjE)
    from alt show ?thesis
    proof
      assume "map fst sk1 = map fst sk"
      with keys have "map fst sk' = map fst sk" by simp
      from map_of_None_keys [OF this] hk h have "map_of sk' k = None" by simp
      with d' k' h' show ?thesis by (simp add: dict_get2_def)
    next
      assume "\<exists>n u. map_of sk1 ''negative'' = Some (PInt n) \<and> map_of sk1 ''neutral'' = Some (PInt u)
                  \<and> map_of sk1 ''positive'' = Some (PInt (100 - n - u))"
      then obtain n u where "map_of sk1 ''negative'' = Some (PInt n)"
        and "map_of sk1 ''neutral'' = Some (PInt u)"
        and "map_of sk1 ''positive'' = Some (PInt (100 - n - u))" by (elim exE conjE)
      moreover from others [rule_format, of "''negative''"]
      have "map_of sk' ''negative'' = map_of sk1 ''negative''" by simp
      moreover from others [rule_format, of "''neutral''"]
      have "map_of sk' ''neutral'' = map_of sk1 ''neutral''" by simp
      moreover from others [rule_format, of "''positive''"]
      have "map_of sk' ''positive'' = map_of sk1 ''positive''" by simp
      ultimately show ?thesis using d' k' h' by (simp add: dict_get2_def)
    qed
  qed
qed

text \<open>
  C4. Validation never synthesizes an absent contract key and never coerces a null. As
  stated this fails: a null \<^verbatim>\<open>header.status\<close> is not in the allowed set and becomes
  \<^verbatim>\<open>moderate\<close> (there is no \<^verbatim>\<open>is not None\<close> test on the enum fields).
\<close>

theorem null_status_replaced:
  "validate no_numeric_strings (PDict [(''header'', PDict [(''status'', PNone)])])
     = Inr (PDict [(''header'', PDict [(''status'', PStr ''moderate'')])])"
  by code_simp

text \<open>
  The renormalization writes all three sentiment keys, so a candidate with only
  \<^verbatim>\<open>negative\<close> gets \<^verbatim>\<open>neutral\<close> and \<^verbatim>\<open>positive\<close> as well.
\<close>

lemma sentiment_keys_written:
  "validate no_numeric_strings (PDict [(''sentiment'', PDict [(''negative'', PInt 50)])])
     = Inr (PDict [(''sentiment'',
          PDict [(''negative'', PInt 100), (''neutral'', PInt 0), (''positive'', PInt 0)])])"
  by code_simp

text \<open>
  C4, amended. For every candidate object on which the repair pass completes: a key
  missing at the top of the candidate, a key missing from \<^verbatim>\<open>header\<close>,
  \<^verbatim>\<open>sentiment.samples\<close> and the \<^verbatim>\<open>percent\<close> of a problem entry are still missing when they
  were missing; a key missing from \<^verbatim>\<open>sentiment\<close> is still missing unless the triple was
  rescaled, and then \<^verbatim>\<open>negative\<close>, \<^verbatim>\<open>neutral\<close> and \<^verbatim>\<open>positive\<close> are all there and sum to
  100; \<^verbatim>\<open>pain_index\<close>, \<^verbatim>\<open>header.star_rating\<close>, \<^verbatim>\<open>header.total_reports_24h\<close> and the
  \<^verbatim>\<open>percent\<close> of a problem entry are still null when they were null.
\<close>

theorem validate_keeps_absent_and_null:
  assumes "validate L (PDict kvs) = Inr d'"
  shows "(dict_get (PDict kvs) k = None \<longrightarrow> dict_get d' k = None)
       \<and> (dict_get2 (PDict kvs) ''header'' hk = None \<longrightarrow> dict_get2 d' ''header'' hk = None)
       \<and> (dict_get2 (PDict kvs) ''sentiment'' ''samples'' = None \<longrightarrow>
            dict_get2 d' ''sentiment'' ''samples'' = None)
       \<and> (dict_get2 (PDict kvs) ''sentiment'' sk = None \<longrightarrow>
            dict_get2 d' ''sentiment'' sk = None
            \<or> (\<exists>n u. dict_get2 d' ''sentiment'' ''negative'' = Some (PInt n)
                  \<and> dict_get2 d' ''sentiment'' ''neutral'' = Some (PInt u)
                  \<and> dict_get2 d' ''sentiment'' ''positive'' = Some (PInt (100 - n - u))))
       \<and> (dict_get (PDict kvs) ''pain_index'' = Some PNone \<longrightarrow>
            dict_get d' ''pain_index'' = Some PNone)
       \<and> (dict_get2 (PDict kvs) ''header'' ''star_rating'' = Some PNone \<longrightarrow>
            dict_get2 d' ''header'' ''star_rating'' = Some PNone)
       \<and> (dict_get2 (PDict kvs) ''header'' ''total_reports_24h'' = Some PNone \<longrightarrow>
            dict_get2 d' ''header'' ''total_reports_24h'' = Some PNone)
       \<and> (dict_get (PDict kvs) ''problem_distribution'' = Some (PList items) \<longrightarrow>
            (\<exists>items'. dict_get d' ''problem_distribution'' = Some (PList items') \<and>
               length items' = length items \<and>
               (\<forall>i<length items.
                  (dict_get (items ! i) ''percent'' = None \<longrightarrow>
                     dict_get (items' ! i) ''percent'' = None) \<and>
                  (dict_get (items ! i) ''percent'' = Some PNone \<longrightarrow>
                     dict_get (items' ! i) ''percent'' = Some PNone))))"
proof -
  have 1: "dict_get d' k = None" if "dict_get (PDict kvs) k = None"
  proof -
    from validate_fields [OF assms] obtain kvs' where "d' = PDict kvs'"
      and "\<forall>k. map_of kvs k = None \<longrightarrow> map_of kvs' k = None"
      by (elim exE conjE)
    with that show ?thesis by simp
  qed
  have 4: "dict_get d' ''pain_index'' = Some PNone"
    if "dict_get (PDict kvs) ''pain_index'' = Some PNone"
    using validate_top_fields [OF assms that]
    by (auto simp: pipeline_pain_index number_value_def)
  have 5: "dict_get2 d' ''header'' ''star_rating'' = Some PNone"
    if "dict_get2 (PDict kvs) ''header'' ''star_rating'' = Some PNone"
    using validate_header_fields [OF assms that]
    by (auto simp: pipeline_star_rating number_value_def)
  have 6: "dict_get2 d' ''header'' ''total_reports_24h'' = Some PNone"
    if "dict_get2 (PDict kvs) ''header'' ''total_reports_24h'' = Some PNone"
    using validate_header_fields [OF assms that]
    by (auto simp: pipeline_total_reports number_value_def)
  from 1 validate_header_absent [OF assms] validate_samples_absent [OF assms]
    validate_sentiment_keys [OF assms] 4 5 6 validate_problem_percents [OF assms]
  show ?thesis by (intro conjI impI)
qed

theorem validate_keeps_absent_and_null_witness:
  "validate no_numeric_strings null_candidate = Inr null_candidate
   \<and> dict_get null_candidate ''key_metrics'' = None
   \<and> dict_get2 null_candidate ''header'' ''status'' = None
   \<and> dict_get2 null_candidate ''sentiment'' ''samples'' = None
   \<and> dict_get null_candidate ''pain_index'' = Some PNone
   \<and> dict_get2 null_candidate ''header'' ''star_rating'' = Some PNone
   \<and> dict_get2 null_candidate ''header'' ''total_reports_24h'' = Some PNone
   \<and> (\<exists>items'. dict_get null_candidate ''problem_distribution'' = Some (PList items') \<and>
         length items' = 2 \<and>
         dict_get (items' ! 0) ''percent'' = Some PNone \<and>
         dict_get (items' ! 1) ''percent'' = None)"
proof -
  have v: "validate no_numeric_strings (PDict [(''pain_index'', PNone),
            (''header'', PDict [(''star_rating'', PNone), (''total_reports_24h'', PNone)]),
            (''problem_distribution'',
               PList [PDict [(''label'', PStr ''Internet''), (''percent'', PNone)],
                      PDict [(''label'', PStr ''Phone'')]])]) = Inr null_candidate"
    by code_simp
  from validate_keeps_absent_and_null [OF v, of "''key_metrics''" "''status''" "''negative''"
      "[PDict [(''label'', PStr ''Internet''), (''percent'', PNone)], PDict [(''label'', PStr ''Phone'')]]"]
    v
  show ?thesis
    by (simp add: null_candidate_def dict_get2_def)
qed

section \<open>Candidates that are not objects\<close>

lemma fix_number_list:
  "fix_number coerce key (PList xs) = (if PStr key \<in> set xs then Inl TypeError else Inr (PList xs))"
  by (simp add: fix_number_def)

lemma fix_header_number_list:
  "fix_header_number coerce key (PList xs) =
     (if PStr ''header'' \<in> set xs then Inl TypeError else Inr (PList xs))"
  by (simp add: fix_header_number_def)

lemma fix_sentiment_list:
  "fix_sentiment L (PList xs) =
     (if PStr ''sentiment'' \<in> set xs then Inl TypeError else Inr (PList xs))"
  by (simp add: fix_sentiment_def)

lemma fix_problem_distribution_list:
  "fix_problem_distribution L (PList xs) =
     (if PStr ''problem_distribution'' \<in> set xs then Inl TypeError else Inr (PList xs))"
  by (simp add: fix_problem_distribution_def)

lemma truncate_field_list:
  "truncate_field key n (PList xs) = (if PStr key \<in> set xs then Inl TypeError else Inr (PList xs))"
  by (simp add: truncate_field_def)

lemma truncate_samples_list:
  "truncate_samples (PList xs) =
     (if PStr ''sentiment'' \<in> set xs then Inl TypeError else Inr (PList xs))"
  by (simp add: truncate_samples_def)

lemma fix_enums_list:
  "fix_enums (PList xs) = (if PStr ''header'' \<in> set xs then Inl TypeError else Inr (PList xs))"
  by (simp add: fix_enums_def)

lemma validate_list:
  "validate L (PList xs) =
     (if \<exists>k \<in> set guarded_keys. PStr k \<in> set xs then Inl TypeError else Inr (PList xs))"
  by (simp add: validate_def truncate_arrays_def fix_pain_index_def fix_star_rating_def
      fix_total_reports_def fix_number_list fix_header_number_list fix_sentiment_list
      fix_problem_distribution_list truncate_field_list truncate_samples_list fix_enums_list
      guarded_keys_def)

lemma validate_scalar:
  "validate L PNone = Inl TypeError" "validate L (PBool b) = Inl TypeError"
  "validate L (PInt n) = Inl TypeError" "validate L (PFloat f) = Inl TypeError"
  by (simp_all add: validate_def fix_pain_index_def fix_number_def)

text \<open>
  C10. A candidate that parses to a top-level array matches no repair guard and is saved
  re-serialized; a top-level number, boolean or null raises TypeError and nothing is
  saved. As stated this fails for an array that holds one of the guarded keys as an item:
  \<^verbatim>\<open>["header"]\<close> passes the test \<^verbatim>\<open>"header" in dashboard_json\<close> and the indexing
  \<^verbatim>\<open>dashboard_json["header"]\<close> raises TypeError.
\<close>

theorem array_with_guarded_key_raises:
  "validate no_numeric_strings (PList [PStr ''header'']) = Inl TypeError"
  by (simp add: validate_list guarded_keys_def)

text \<open>
  C10, amended. A top-level array is serialized unchanged and saved, by the same
  serialization and write as a validated payload, when none of its items is one of the
  ten guarded keys, and raises TypeError, with no report written, when one is; a
  top-level number, boolean or null always raises TypeError, with no report written.
\<close>

theorem non_object_candidate:
  "save_report R L sp content (Loaded (PList xs)) =
     (if \<exists>k \<in> set guarded_keys. PStr k \<in> set xs then Raised TypeError
      else write_payload R (report_filename sp) (PList xs))
   \<and> (\<not> (\<exists>k \<in> set guarded_keys. PStr k \<in> set xs) \<and> json_dumps R (PList xs) = Inr t
        \<and> open_report R (report_filename sp) = None \<and> encodable R t \<longrightarrow>
      save_report R L sp content (Loaded (PList xs)) = Written (report_filename sp) t)
   \<and> save_report R L sp content (Loaded PNone) = Raised TypeError
   \<and> save_report R L sp content (Loaded (PBool b)) = Raised TypeError
   \<and> save_report R L sp content (Loaded (PInt n)) = Raised TypeError
   \<and> save_report R L sp content (Loaded (PFloat f)) = Raised TypeError"
  by (simp add: save_report_def write_payload_def write_text_def validate_list validate_scalar)

theorem non_object_candidate_witness:
  "\<not> (\<exists>k \<in> set guarded_keys. PStr k \<in> set [PStr ''x'', PInt 3])
   \<and> json_dumps (sample_runtime\<lparr>json_dumps := (\<lambda>v. Inr ''[]'')\<rparr>) (PList [PStr ''x'', PInt 3])
       = Inr ''[]''
   \<and> open_report (sample_runtime\<lparr>json_dumps := (\<lambda>v. Inr ''[]'')\<rparr>) (report_filename ''att'') = None
   \<and> encodable (sample_runtime\<lparr>json_dumps := (\<lambda>v. Inr ''[]'')\<rparr>) ''[]''
   \<and> save_report (sample_runtime\<lparr>json_dumps := (\<lambda>v. Inr ''[]'')\<rparr>) no_numeric_strings ''att'' ''[]''
         (Loaded (PList [PStr ''x'', PInt 3]))
       = Written ''att.json'' ''[]''
   \<and> (\<exists>k \<in> set guarded_keys. PStr k \<in> set [PInt 3, PStr ''sentiment''])
   \<and> save_report (sample_runtime\<lparr>json_dumps := (\<lambda>v. Inr ''[]'')\<rparr>) no_numeric_strings ''att'' ''[]''
         (Loaded (PList [PInt 3, PStr ''sentiment''])) = Raised TypeError"
proof -
  have f: "report_filename ''att'' = ''att.json''" by code_simp
  have a: "\<not> (\<exists>k \<in> set guarded_keys. PStr k \<in> set [PStr ''x'', PInt 3])"
    by (simp add: guarded_keys_def)
  have b: "\<exists>k \<in> set guarded_keys. PStr k \<in> set [PInt 3, PStr ''sentiment'']"
    by (simp add: guarded_keys_def)
  have w: "json_dumps (sample_runtime\<lparr>json_dumps := (\<lambda>v. Inr ''[]'')\<rparr>) (PList [PStr ''x'', PInt 3])
             = Inr ''[]''"
    "open_report (sample_runtime\<lparr>json_dumps := (\<lambda>v. Inr ''[]'')\<rparr>) ''att.json'' = None"
    "encodable (sample_runtime\<lparr>json_dumps := (\<lambda>v. Inr ''[]'')\<rparr>) ''[]''"
    by (simp_all add: sample_runtime_def)
  from non_object_candidate [of "sample_runtime\<lparr>json_dumps := (\<lambda>v. Inr ''[]'')\<rparr>"
      no_numeric_strings "''att''" "''[]''" "[PStr ''x'', PInt 3]" "''[]''",
      THEN conjunct2, THEN conjunct1]
    a w f
  have 1: "save_report (sample_runtime\<lparr>json_dumps := (\<lambda>v. Inr ''[]'')\<rparr>) no_numeric_strings ''att''
             ''[]'' (Loaded (PList [PStr ''x'', PInt 3])) = Written ''att.json'' ''[]''"
    by simp
  from non_object_candidate [of "sample_runtime\<lparr>json_dumps := (\<lambda>v. Inr ''[]'')\<rparr>"
      no_numeric_strings "''att''" "''[]''" "[PInt 3, PStr ''sentiment'']" "''[]''",
      THEN conjunct1]
    b
  have 2: "save_report (sample_runtime\<lparr>json_dumps := (\<lambda>v. Inr ''[]'')\<rparr>) no_numeric_strings ''att''
             ''[]'' (Loaded (PList [PInt 3, PStr ''sentiment''])) = Raised TypeError"
    by simp
  from a b w f 1 2 show ?thesis by (intro conjI) simp_all
qed

section \<open>Saving the report\<close>

lemma undecodable_saved:
  assumes "json_loads R (strip_markdown raw) = JSONDecodeError" and "print_warning R = None"
    and "open_report R (report_filename sp) = None" and "encodable R (strip_markdown raw)"
  shows "analyze_insights R L sp raw = Written (report_filename sp) (strip_markdown raw)"
  using assms by (simp add: analyze_insights_def save_report_def write_text_def Let_def)

lemma validated_saved:
  assumes "json_loads R (strip_markdown raw) = Loaded d" and "validate L d = Inr d'"
    and "json_dumps R d' = Inr t"
    and "open_report R (report_filename sp) = None" and "encodable R t"
  shows "analyze_insights R L sp raw = Written (report_filename sp) t"
  using assms
  by (simp add: analyze_insights_def save_report_def write_payload_def write_text_def Let_def)

text \<open>
  The exceptions that nothing catches end the call with the report file untouched:
  one of \<^verbatim>\<open>json.loads\<close> other than \<^verbatim>\<open>json.JSONDecodeError\<close>, one of a repair and one of
  \<^verbatim>\<open>json.dumps\<close>.
\<close>

lemma loads_error_not_saved:
  assumes "json_loads R (strip_markdown raw) = OtherError e"
  shows "analyze_insights R L sp raw = Raised e"
  using assms by (simp add: analyze_insights_def save_report_def Let_def)

lemma raising_not_saved:
  assumes "json_loads R (strip_markdown raw) = Loaded d" and "validate L d = Inl e"
  shows "analyze_insights R L sp raw = Raised e"
  using assms by (simp add: analyze_insights_def save_report_def Let_def)

lemma dumps_error_not_saved:
  assumes "json_loads R (strip_markdown raw) = Loaded d" and "validate L d = Inr d'"
    and "json_dumps R d' = Inl e"
  shows "analyze_insights R L sp raw = Raised e"
  using assms by (simp add: analyze_insights_def save_report_def write_payload_def Let_def)

text \<open>
  A text that cannot be encoded leaves the report file empty, whether it is the stripped
  text or the serialized payload.
\<close>

lemma unencodable_text_empties:
  assumes "open_report R name = None" and "\<not> encodable R t"
  shows "write_text R name t = Emptied name UnicodeEncodeError"
  using assms by (simp add: write_text_def)

lemma unencodable_answer_empties:
  assumes "json_loads R (strip_markdown raw) = JSONDecodeError" and "print_warning R = None"
    and "open_report R (report_filename sp) = None" and "\<not> encodable R (strip_markdown raw)"
  shows "analyze_insights R L sp raw = Emptied (report_filename sp) UnicodeEncodeError"
  using assms by (simp add: analyze_insights_def save_report_def write_text_def Let_def)

text \<open>
  A candidate that parses and whose repairs raise is not saved: \<^verbatim>\<open>{"key_metrics": null}\<close>
  parses, \<^verbatim>\<open>len(None)\<close> raises TypeError, only \<^verbatim>\<open>json.JSONDecodeError\<close> is caught, and
  the call ends before the report is written.
\<close>

lemma null_array_report_not_written:
  "save_report R L sp content (Loaded (PDict [(''key_metrics'', PNone)])) = Raised TypeError"
  by (simp add: save_report_def validate_dict validate_steps_def modify_def number_value_def
      truncate_value_def)

text \<open>
  An integer literal of 5000 digits is not JSON that \<^verbatim>\<open>json.loads\<close> parses, and it is
  not saved either: the \<^verbatim>\<open>ValueError\<close> of the digit limit is not a
  \<^verbatim>\<open>json.JSONDecodeError\<close>.
\<close>

lemma strip_markdown_digits:
  assumes "s \<noteq> []" and "set s \<subseteq> {CHR ''9''}"
  shows "strip_markdown s = s"
proof -
  from assms obtain t where s: "s = CHR ''9'' # t" by (cases s) auto
  from last_in_set [OF assms(1)] assms(2) have "last s \<in> {CHR ''9''}" by (rule subsetD [rotated])
  hence l: "last s = CHR ''9''" by simp
  have o: "strip_open_fence s = s" by (simp add: strip_open_fence_def s fence_def)
  have "\<not> suffix fence s"
  proof
    assume "suffix fence s"
    then obtain u where "s = u @ fence" by (auto simp: suffix_def)
    with l show False by (simp add: fence_def)
  qed
  with l assms(1) have c: "strip_close_fence s = s"
    by (simp add: strip_close_fence_def Let_def newline_def)
  have n: "\<not> is_space (CHR ''9'')" by (simp add: is_space_def)
  have d1: "dropWhile is_space s = s" by (simp add: s n)
  from assms(1) l have "hd (rev s) = CHR ''9''" by (simp add: hd_rev)
  with assms(1) n have d2: "dropWhile is_space (rev s) = rev s"
    by (cases "rev s") auto
  show ?thesis by (simp add: strip_markdown_def o c py_strip_def d1 d2)
qed

lemma shorter_than_long_integer:
  assumes "length s < 5000"
  shows "s \<noteq> long_integer"
proof
  assume "s = long_integer"
  hence "length s = 5000" by (simp add: long_integer_def)
  with assms show False by simp
qed

lemma long_integer_not_saved:
  "analyze_insights sample_runtime no_numeric_strings ''att'' long_integer = Raised ValueError"
proof -
  have "strip_markdown long_integer = long_integer"
    by (rule strip_markdown_digits) (simp_all add: long_integer_def)
  moreover have "long_integer \<noteq> ''{}''"
    using shorter_than_long_integer [of "''{}''"] by simp
  ultimately show ?thesis
    by (simp add: analyze_insights_def save_report_def sample_runtime_def sample_loads_def)
qed

lemma accented_answer_empties_report:
  "analyze_insights ascii_runtime no_numeric_strings ''att'' [CHR 0xE9]
     = Emptied ''att.json'' UnicodeEncodeError"
  by code_simp

text \<open>
  C5. When the stripped text does not parse, the raw text is saved verbatim. As stated
  this fails: what is saved is the text after the stripping of fences and whitespace,
  which is not the raw text when the answer came in a fence. (The file name is the
  provider in lower case.)
\<close>

theorem fenced_answer_saved_stripped:
  "analyze_insights sample_runtime no_numeric_strings ''ATT'' fenced_answer
     = Written ''att.json'' ''not json''
   \<and> fenced_answer \<noteq> ''not json''"
  by code_simp

text \<open>
  C5, amended. When \<^verbatim>\<open>json.loads\<close> raises \<^verbatim>\<open>json.JSONDecodeError\<close> on the candidate text
  after code-fence stripping and whitespace trimming, no field repair is performed and
  the stripped, trimmed text is saved to the report file; when the text parses, the
  repair pass completes and the payload is serialized, the serialized validated payload
  is saved to the same file instead. Both hold when the write itself succeeds: the
  warning is printed (first case), the report file can be opened and the text can be
  encoded.
\<close>

theorem report_holds_stripped_or_validated:
  "(json_loads R (strip_markdown raw) = JSONDecodeError \<and> print_warning R = None
      \<and> open_report R (report_filename sp) = None \<and> encodable R (strip_markdown raw) \<longrightarrow>
      analyze_insights R L sp raw = Written (report_filename sp) (strip_markdown raw))
   \<and> (json_loads R (strip_markdown raw) = Loaded d \<and> validate L d = Inr d'
      \<and> json_dumps R d' = Inr t
      \<and> open_report R (report_filename sp) = None \<and> encodable R t \<longrightarrow>
      analyze_insights R L sp raw = Written (report_filename sp) t)"
  using undecodable_saved [of R raw sp L] validated_saved [of R raw d L d' t sp]
  by blast

theorem report_holds_stripped_or_validated_witness:
  "json_loads sample_runtime (strip_markdown fenced_answer) = JSONDecodeError
   \<and> print_warning sample_runtime = None
   \<and> open_report sample_runtime (report_filename ''att'') = None
   \<and> encodable sample_runtime (strip_markdown fenced_answer)
   \<and> analyze_insights sample_runtime no_numeric_strings ''att'' fenced_answer
       = Written ''att.json'' ''not json''
   \<and> json_loads sample_runtime (strip_markdown '' {} '') = Loaded (PDict [])
   \<and> validate no_numeric_strings (PDict []) = Inr (PDict [])
   \<and> json_dumps sample_runtime (PDict []) = Inr ''{}''
   \<and> encodable sample_runtime ''{}''
   \<and> analyze_insights sample_runtime no_numeric_strings ''att'' '' {} ''
       = Written ''att.json'' ''{}''"
proof -
  have s1: "strip_markdown fenced_answer = ''not json''" by code_simp
  have s2: "strip_markdown '' {} '' = ''{}''" by code_simp
  have f: "report_filename ''att'' = ''att.json''" by code_simp
  have n: "''not json'' \<noteq> long_integer" by (rule shorter_than_long_integer) simp
  have l1: "json_loads sample_runtime (strip_markdown fenced_answer) = JSONDecodeError"
    by (simp add: s1 sample_runtime_def sample_loads_def n)
  have l2: "json_loads sample_runtime (strip_markdown '' {} '') = Loaded (PDict [])"
    by (simp add: s2 sample_runtime_def sample_loads_def)
  have v: "validate no_numeric_strings (PDict []) = Inr (PDict [])"
    by (simp add: validate_dict validate_steps_def modify_def)
  have w: "print_warning sample_runtime = None" "open_report sample_runtime ''att.json'' = None"
    "encodable sample_runtime ''not json''" "encodable sample_runtime ''{}''"
    "json_dumps sample_runtime (PDict []) = Inr ''{}''"
    by (simp_all add: sample_runtime_def sample_dumps_def)
  from report_holds_stripped_or_validated [where R = sample_runtime and raw = fenced_answer
      and sp = "''att''" and L = no_numeric_strings and d = "PDict []" and d' = "PDict []"
      and t = "''{}''"]
    report_holds_stripped_or_validated [where R = sample_runtime and raw = "'' {} ''"
      and sp = "''att''" and L = no_numeric_strings and d = "PDict []" and d' = "PDict []"
      and t = "''{}''"]
    l1 l2 v s1 s2 f w
  show ?thesis by simp
qed

section \<open>The extractors\<close>

lemma parse_latest_reports_filter:
  "parse_latest_reports D rows = map (report_of D) (filter (\<lambda>cells. length cells = 3) rows)"
  by (induction rows) simp_all

lemma parse_latest_reports_append:
  "parse_latest_reports D (xs @ ys) = parse_latest_reports D xs @ parse_latest_reports D ys"
  by (simp add: parse_latest_reports_filter)

text \<open>
  C8. The latest-reports extraction gives one entry per row of exactly three cells, in
  source order, and skips every other row. The example of the claim does not follow: a
  table with five valid rows and one row of two cells gives five entries, not four.
\<close>

theorem five_valid_rows_give_five_entries:
  "map length five_valid_one_malformed = [3, 3, 3, 2, 3, 3]
   \<and> length (parse_latest_reports unused_dates five_valid_one_malformed) = 5"
  by (simp add: five_valid_one_malformed_def)

text \<open>
  C8, amended. Extraction yields exactly one entry (city from cell 1, reason from cell 2,
  human time and normalized \<^verbatim>\<open>datetime\<close> attribute from cell 3) per row of exactly three
  cells, in source order; a row with another number of cells is skipped and changes
  nothing for the other rows. The number of entries is the number of three-cell rows:
  five for one malformed row beside five valid rows, four when the malformed row is one
  of five rows.
\<close>

theorem latest_reports_per_three_cell_row:
  "parse_latest_reports D rows =
     map (\<lambda>cells. \<lparr>city = cell_text (cells ! 0), reason = cell_text (cells ! 1),
                    time_human = cell_text (cells ! 2),
                    time_iso = parse_datetime D (cell_datetime (cells ! 2))\<rparr>)
       (filter (\<lambda>cells. length cells = 3) rows)
   \<and> length (parse_latest_reports D rows) = length (filter (\<lambda>cells. length cells = 3) rows)
   \<and> (length bad \<noteq> 3 \<longrightarrow>
        parse_latest_reports D (before @ bad # after) = parse_latest_reports D (before @ after))"
proof -
  have "report_of D = (\<lambda>cells. \<lparr>city = cell_text (cells ! 0), reason = cell_text (cells ! 1),
                    time_human = cell_text (cells ! 2),
                    time_iso = parse_datetime D (cell_datetime (cells ! 2))\<rparr>)"
    by (rule ext) (simp add: report_of_def)
  then show ?thesis
    by (simp add: parse_latest_reports_filter)
qed

theorem latest_reports_per_three_cell_row_witness:
  "length [plain_cell ''Plano'', plain_cell ''Internet''] \<noteq> 3
   \<and> parse_latest_reports unused_dates
        (take 3 five_valid_one_malformed @ [plain_cell ''Plano'', plain_cell ''Internet'']
           # drop 4 five_valid_one_malformed)
     = parse_latest_reports unused_dates
        (take 3 five_valid_one_malformed @ drop 4 five_valid_one_malformed)
   \<and> length (parse_latest_reports unused_dates (take 5 five_valid_one_malformed)) = 4"
proof -
  have l: "length [plain_cell ''Plano'', plain_cell ''Internet''] \<noteq> 3" by simp
  have f: "length (filter (\<lambda>cells. length cells = 3) (take 5 five_valid_one_malformed)) = 4"
    by (simp add: five_valid_one_malformed_def)
  from latest_reports_per_three_cell_row [where D = unused_dates
      and rows = "take 5 five_valid_one_malformed"
      and bad = "[plain_cell ''Plano'', plain_cell ''Internet'']"
      and before = "take 3 five_valid_one_malformed"
      and after = "drop 4 five_valid_one_malformed"] l f
  show ?thesis by simp
qed

text \<open>
  C9. When a region of the page is absent its extractor returns an empty sequence or an
  empty object and raises nothing; the other fields are extracted as they would be with
  the region present.
\<close>

theorem absent_regions_give_empty:
  "parse_most_reported [] = Inr []
   \<and> parse_star_rating None = []
   \<and> parse_chart [] None = []
   \<and> parse_latest_reports D [] = []
   \<and> parse_issue_feed D [] = []
   \<and> parse_company_posts None = []
   \<and> parse_outage_page D (pg\<lparr>problem_region := []\<rparr>) =
       Inr \<lparr>star_rating = parse_star_rating (star_region pg),
            chart = parse_chart (script_texts pg) (chart_region pg),
            most_reported_problems = [],
            latest_reports = parse_latest_reports D (report_rows pg),
            issues_reports = parse_issue_feed D (issue_region pg),
            company_posts = parse_company_posts (posts_region pg)\<rparr>
   \<and> parse_outage_page D (pg\<lparr>star_region := None\<rparr>) =
       and_then (parse_outage_page D pg) (\<lambda>r. Inr (r\<lparr>star_rating := []\<rparr>))"
proof -
  have "parse_outage_page D (pg\<lparr>star_region := None\<rparr>) =
       and_then (parse_outage_page D pg) (\<lambda>r. Inr (r\<lparr>star_rating := []\<rparr>))"
    by (cases "parse_most_reported (problem_region pg)")
       (simp_all add: parse_outage_page_def parse_star_rating_def)
  then show ?thesis
    by (simp add: parse_most_reported_def parse_star_rating_def parse_chart_def
        parse_issue_feed_def parse_company_posts_def parse_outage_page_def)
qed

section \<open>Binary64 rounding: error bound and exactness\<close>

lemma pow2_powi: "pow2 k = power_int 2 k"
  by (simp add: pow2_def power_int_def inverse_eq_divide power_one_over)

lemma pow2_pos: "0 < pow2 k"
  by (simp add: pow2_powi)

lemma pow2_add: "pow2 (a + b) = pow2 a * pow2 b"
  by (simp add: pow2_powi power_int_add)

lemma pow2_less: "a < b \<Longrightarrow> pow2 a < pow2 b"
  by (simp add: pow2_powi power_int_strict_increasing)

lemma pow2_nat: "pow2 (int n) = 2 ^ n"
  by (simp add: pow2_def)

lemma round_half_even_close: "\<bar>of_int (round_half_even x) - x\<bar> \<le> 1 / 2"
proof -
  have "of_int \<lfloor>x\<rfloor> \<le> x" "x < of_int \<lfloor>x\<rfloor> + 1" by linarith+
  then show ?thesis
    by (auto simp: round_half_even_def Let_def abs_le_iff)
qed

lemma round_half_even_of_int: "round_half_even (of_int m) = m"
  by (simp add: round_half_even_def)

lemma ilog2_bounds:
  assumes "0 < q"
  shows "pow2 (ilog2 q) \<le> q" and "q < pow2 (ilog2 q + 1)"
proof -
  obtain n d where nd: "quotient_of q = (n, d)" by (cases "quotient_of q")
  then have q: "q = of_int n / of_int d" and d: "0 < d"
    by (simp_all add: quotient_of_div quotient_of_denom_pos)
  with assms have n: "0 < n" by (simp add: zero_less_divide_iff)
  define k where "k = bitlen n - bitlen d"
  have bn: "1 \<le> bitlen n" and bd: "1 \<le> bitlen d"
    using n d by (simp_all add: bitlen_alt_def)
  from bitlen_bounds [OF n] have n1: "(2::int) ^ nat (bitlen n - 1) \<le> n" and n2: "n < 2 ^ nat (bitlen n)"
    by simp_all
  from bitlen_bounds [OF d] have d1: "(2::int) ^ nat (bitlen d - 1) \<le> d" and d2: "d < 2 ^ nat (bitlen d)"
    by simp_all
  have rn1: "pow2 (bitlen n - 1) \<le> of_int n"
  proof -
    from n1 have "(of_int ((2::int) ^ nat (bitlen n - 1)) :: rat) \<le> of_int n"
      by (simp only: of_int_le_iff)
    with bn show ?thesis by (simp add: pow2_def)
  qed
  have rn2: "of_int n < pow2 (bitlen n)"
  proof -
    from n2 have "(of_int n :: rat) < of_int ((2::int) ^ nat (bitlen n))"
      by (simp only: of_int_less_iff)
    with bn show ?thesis by (simp add: pow2_def)
  qed
  have rd1: "pow2 (bitlen d - 1) \<le> of_int d"
  proof -
    from d1 have "(of_int ((2::int) ^ nat (bitlen d - 1)) :: rat) \<le> of_int d"
      by (simp only: of_int_le_iff)
    with bd show ?thesis by (simp add: pow2_def)
  qed
  have rd2: "of_int d < pow2 (bitlen d)"
  proof -
    from d2 have "(of_int d :: rat) < of_int ((2::int) ^ nat (bitlen d))"
      by (simp only: of_int_less_iff)
    with bd show ?thesis by (simp add: pow2_def)
  qed
  have dpos: "(0::rat) < of_int d" using d by simp
  have lower: "pow2 (k - 1) < q"
  proof -
    have "pow2 (k - 1) * pow2 (bitlen d) = pow2 (bitlen n - 1)"
      by (simp add: k_def flip: pow2_add)
    also have "\<dots> \<le> of_int n" by (rule rn1)
    finally have "pow2 (k - 1) * pow2 (bitlen d) \<le> of_int n" .
    moreover have "pow2 (k - 1) * of_int d < pow2 (k - 1) * pow2 (bitlen d)"
      using rd2 pow2_pos [of "k - 1"] by simp
    ultimately have "pow2 (k - 1) * of_int d < of_int n" by linarith
    with dpos show ?thesis by (simp add: q pos_less_divide_eq)
  qed
  have upper: "q < pow2 (k + 1)"
  proof -
    have "of_int n < pow2 (bitlen n)" by (rule rn2)
    also have "\<dots> = pow2 (k + 1) * pow2 (bitlen d - 1)"
      by (simp add: k_def flip: pow2_add)
    also have "\<dots> \<le> pow2 (k + 1) * of_int d"
      using rd1 pow2_pos [of "k + 1"] by simp
    finally have "of_int n < pow2 (k + 1) * of_int d" .
    with dpos show ?thesis by (simp add: q pos_divide_less_eq)
  qed
  have il: "ilog2 q = (if pow2 k \<le> q then k else k - 1)"
    using assms nd by (simp add: ilog2_def k_def Let_def)
  show "pow2 (ilog2 q) \<le> q"
    using lower by (simp add: il)
  show "q < pow2 (ilog2 q + 1)"
    using upper by (simp add: il)
qed

lemma fp_round_error:
  assumes "0 < q"
  shows "\<bar>fp_round q - q\<bar> \<le> q / 2 ^ 53"
proof -
  define e where "e = ilog2 q - 52"
  define m where "m = round_half_even (q / pow2 e)"
  have fp: "fp_round q = of_int m * pow2 e"
    using assms by (simp add: fp_round_def e_def m_def Let_def)
  have pe: "0 < pow2 e" by (rule pow2_pos)
  have "\<bar>of_int m - q / pow2 e\<bar> \<le> 1 / 2"
    unfolding m_def by (rule round_half_even_close)
  then have "\<bar>of_int m - q / pow2 e\<bar> * pow2 e \<le> 1 / 2 * pow2 e"
    using pe by (simp only: mult_le_cancel_right) auto
  moreover have "\<bar>of_int m - q / pow2 e\<bar> * pow2 e = \<bar>of_int m * pow2 e - q\<bar>"
  proof -
    have "\<bar>of_int m - q / pow2 e\<bar> * pow2 e = \<bar>(of_int m - q / pow2 e) * pow2 e\<bar>"
      using pe by (simp add: abs_mult)
    also have "(of_int m - q / pow2 e) * pow2 e = of_int m * pow2 e - q"
      using pe by (simp add: field_simps)
    finally show ?thesis .
  qed
  ultimately have err: "\<bar>fp_round q - q\<bar> \<le> pow2 e / 2" by (simp add: fp)
  have "pow2 e * 2 ^ 52 = pow2 (ilog2 q)"
  proof -
    have "pow2 (ilog2 q) = pow2 (e + 52)" by (simp add: e_def)
    also have "\<dots> = pow2 e * pow2 52" by (rule pow2_add)
    also have "pow2 52 = 2 ^ 52" by (simp add: pow2_def)
    finally show ?thesis by simp
  qed
  with ilog2_bounds(1) [OF assms] have "pow2 e * 2 ^ 52 \<le> q" by simp
  then have "pow2 e / 2 \<le> q / 2 ^ 53" by (simp add: field_simps)
  with err show ?thesis by linarith
qed

lemma fp_round_of_int:
  assumes "0 \<le> a" and "a < 2 ^ 53"
  shows "fp_round (of_int a) = of_int a"
proof (cases "a = 0")
  case True
  then show ?thesis by (simp add: fp_round_def)
next
  case False
  with assms have pos: "(0::rat) < of_int a" by simp
  define e where "e = ilog2 (of_int a) - 52"
  have "pow2 (ilog2 (of_int a)) \<le> of_int a" by (rule ilog2_bounds(1) [OF pos])
  also have "(of_int a :: rat) < of_int ((2::int) ^ 53)"
    using assms(2) by (simp only: of_int_less_iff)
  also have "(of_int ((2::int) ^ 53) :: rat) = pow2 53" by (simp add: pow2_def)
  finally have "pow2 (ilog2 (of_int a)) < pow2 53" .
  then have "ilog2 (of_int a) < 53"
    using pow2_less [of 53 "ilog2 (of_int a)"] by (cases "ilog2 (of_int a) < 53") (auto simp: not_less le_less)
  then have e: "e \<le> 0" by (simp add: e_def)
  then have pe: "pow2 e = 1 / 2 ^ nat (- e)"
    by (cases "e = 0") (simp_all add: pow2_def)
  have "of_int a / pow2 e = (of_int (a * 2 ^ nat (- e)) :: rat)"
    by (simp add: pe)
  then have "round_half_even (of_int a / pow2 e) = a * 2 ^ nat (- e)"
    by (simp only: round_half_even_of_int)
  then have "fp_round (of_int a) = of_int (a * 2 ^ nat (- e)) * pow2 e"
    using pos by (simp add: fp_round_def Let_def flip: e_def)
  also have "\<dots> = of_int a" by (simp add: pe)
  finally show ?thesis .
qed


lemma rescale_nearest:
  assumes a0: "0 \<le> a" and as: "a \<le> s" and s0: "0 < s" and s300: "s \<le> 300"
  shows "\<bar>of_int (round_half_even (fp_round (of_int a * fp_round (100 / of_int s))))
           - (100 * of_int a / of_int s :: rat)\<bar> \<le> 1 / 2"
proof -
  define x :: rat where "x = 100 * of_int a / of_int s"
  define sc where "sc = fp_round (100 / of_int s)"
  define y where "y = of_int a * sc"
  define yt where "yt = fp_round y"
  define n where "n = round_half_even yt"
  have sr: "(0::rat) < of_int s" using s0 by simp
  have ar: "(0::rat) \<le> of_int a" using a0 by simp
  have asr: "(of_int a :: rat) \<le> of_int s" using as by simp
  have x0: "0 \<le> x" using ar sr by (simp add: x_def)
  have x100: "x \<le> 100"
    using asr sr by (simp add: x_def pos_divide_le_eq)
  have "\<bar>sc - 100 / of_int s\<bar> \<le> (100 / of_int s) / 2 ^ 53"
    unfolding sc_def using sr by (intro fp_round_error) simp
  then have "of_int a * \<bar>sc - 100 / of_int s\<bar> \<le> of_int a * ((100 / of_int s) / 2 ^ 53)"
    using ar by (rule mult_left_mono)
  moreover have "of_int a * \<bar>sc - 100 / of_int s\<bar> = \<bar>y - x\<bar>"
  proof -
    have "y - x = of_int a * (sc - 100 / of_int s)"
      by (simp add: y_def x_def algebra_simps)
    then show ?thesis using ar by (simp add: abs_mult)
  qed
  moreover have "of_int a * ((100 / of_int s) / 2 ^ 53) = x / 2 ^ 53"
    by (simp add: x_def)
  ultimately have yx: "\<bar>y - x\<bar> \<le> x / 2 ^ 53" by simp
  have y0: "0 \<le> y"
  proof -
    have "x / 2 ^ 53 \<le> x" using x0 by (simp add: field_simps)
    with yx show ?thesis by linarith
  qed
  have y200: "y \<le> 200"
  proof -
    have "x / 2 ^ 53 \<le> x" using x0 by (simp add: field_simps)
    with yx x100 show ?thesis by linarith
  qed
  have yty: "\<bar>yt - y\<bar> \<le> y / 2 ^ 53"
  proof (cases "y = 0")
    case True
    then show ?thesis by (simp add: yt_def fp_round_def)
  next
    case False
    with y0 have "0 < y" by simp
    then show ?thesis unfolding yt_def by (rule fp_round_error)
  qed
  have "x / 2 ^ 53 \<le> 100 / 2 ^ 53" using x100 by (simp add: divide_right_mono)
  moreover have "y / 2 ^ 53 \<le> 200 / 2 ^ 53" using y200 by (simp add: divide_right_mono)
  ultimately have "\<bar>yt - x\<bar> \<le> 300 / 2 ^ 53" using yx yty by linarith
  then have close: "\<bar>yt - x\<bar> < 1 / 600" by simp
  have near: "\<bar>of_int n - yt\<bar> \<le> 1 / 2"
    unfolding n_def by (rule round_half_even_close)
  have s600: "1 / 600 \<le> 1 / (2 * of_int s :: rat)"
  proof -
    have "(of_int s :: rat) \<le> 300" using s300 by simp
    with sr show ?thesis by (simp add: field_simps)
  qed
  have xs: "x * of_int s = 100 * of_int a" using sr by (simp add: x_def)
  have "\<not> 1 / 2 < of_int n - x"
  proof
    assume "1 / 2 < of_int n - x"
    then have "(1 / 2 + x) * (2 * of_int s) < of_int n * (2 * of_int s)"
      using sr by (intro mult_strict_right_mono) simp_all
    then have "of_int s + 200 * of_int a < (2 * of_int n * of_int s :: rat)"
      using xs by (simp add: algebra_simps)
    then have "(of_int (s + 200 * a) :: rat) < of_int (2 * n * s)" by simp
    then have "s + 200 * a < 2 * n * s" by (simp only: of_int_less_iff)
    then have "s + 200 * a + 1 \<le> 2 * n * s" by simp
    then have "(of_int (s + 200 * a + 1) :: rat) \<le> of_int (2 * n * s)"
      by (simp only: of_int_le_iff)
    then have "of_int s + 2 * (x * of_int s) + 1 \<le> (2 * of_int n * of_int s :: rat)"
      using xs by simp
    then have "(1 / 2 + x + 1 / (2 * of_int s)) * (2 * of_int s) \<le> of_int n * (2 * of_int s)"
      using sr by (simp add: algebra_simps)
    then have "1 / 2 + x + 1 / (2 * of_int s) \<le> of_int n"
      using sr by (simp add: mult_le_cancel_right)
    with s600 near close show False by linarith
  qed
  moreover have "\<not> 1 / 2 < x - of_int n"
  proof
    assume "1 / 2 < x - of_int n"
    then have "(1 / 2 + of_int n) * (2 * of_int s) < x * (2 * of_int s)"
      using sr by (intro mult_strict_right_mono) simp_all
    then have "of_int s + 2 * of_int n * of_int s < (200 * of_int a :: rat)"
      using xs by (simp add: algebra_simps)
    then have "(of_int (s + 2 * n * s) :: rat) < of_int (200 * a)" by simp
    then have "s + 2 * n * s < 200 * a" by (simp only: of_int_less_iff)
    then have "s + 2 * n * s + 1 \<le> 200 * a" by simp
    then have "(of_int (s + 2 * n * s + 1) :: rat) \<le> of_int (200 * a)"
      by (simp only: of_int_le_iff)
    then have "of_int s + 2 * of_int n * of_int s + 1 \<le> (2 * (x * of_int s) :: rat)"
      using xs by simp
    then have "(1 / 2 + of_int n + 1 / (2 * of_int s)) * (2 * of_int s) \<le> x * (2 * of_int s)"
      using sr by (simp add: algebra_simps)
    then have "1 / 2 + of_int n + 1 / (2 * of_int s) \<le> x"
      using sr by (simp add: mult_le_cancel_right)
    with s600 near close show False by linarith
  qed
  ultimately have "\<bar>of_int n - x\<bar> \<le> 1 / 2" by linarith
  then show ?thesis
    by (simp add: n_def yt_def y_def sc_def x_def)
qed

section \<open>Sentiment renormalization\<close>

lemma int_to_float_small:
  assumes "0 \<le> a" and "a \<le> 100"
  shows "int_to_float a = Inr (of_int a)"
proof -
  from assms have "a < 2 ^ 53" by simp
  with assms(1) have "fp_round (of_int a) = of_int a" by (rule fp_round_of_int)
  moreover from assms have "\<not> 2 ^ 1024 - 2 ^ 970 \<le> \<bar>a\<bar>" by simp
  ultimately show ?thesis by (simp add: int_to_float_def)
qed

lemma coerce_percent_clamped:
  assumes "0 \<le> a" and "a \<le> 100"
  shows "coerce_percent L (PInt a) = Inr (PInt a)"
  using assms
  by (simp add: coerce_percent_def int_to_float_small round_half_even_of_int
      except_value_type_def)

lemma scaled_small:
  assumes "0 \<le> a" and "a \<le> 100"
  shows "scaled (PInt a) (fp_round (100 / of_int tot)) = Inr (rescale a tot)"
  using assms by (simp add: int_to_float_small rescale_def)

text \<open>
  After the loop over the three keys each of them is missing, null or an int of
  \<open>[0, 100]\<close>: the operands of the total are ints or \<^verbatim>\<open>None\<close>.
\<close>

lemma clamped_triple_values:
  assumes r: "run_steps (sentiment_steps L) sk = Inr sk'"
    and k: "k \<in> {''negative'', ''neutral'', ''positive''}"
  shows "map_of sk' k = None \<or> map_of sk' k = Some PNone
         \<or> (\<exists>i. map_of sk' k = Some (PInt i) \<and> 0 \<le> i \<and> i \<le> 100)"
proof (cases "map_of sk k")
  case None
  with run_steps_absent [OF r] show ?thesis by simp
next
  case (Some v)
  from k have p: "pipeline k (sentiment_steps L) = number_value (coerce_percent L)"
    by (auto simp: sentiment_steps_def pipeline_Cons pipeline_Nil)
  from run_steps_fields [OF r] Some obtain v' where "pipeline k (sentiment_steps L) v = Inr v'"
    and v': "map_of sk' k = Some v'" by blast
  with p have "number_value (coerce_percent L) v = Inr v'" by simp
  then have "v' = PNone \<or> (\<exists>i. v' = PInt i \<and> 0 \<le> i \<and> i \<le> 100)"
    using coerce_percent_range [of L v v'] by (auto simp: number_value_def split: if_splits)
  with v' show ?thesis by auto
qed

lemma clamp_loop_clamped:
  assumes "map_of sk ''negative'' = Some (PInt a)" and "map_of sk ''neutral'' = Some (PInt b)"
    and "map_of sk ''positive'' = Some (PInt c)"
    and "0 \<le> a" "a \<le> 100" "0 \<le> b" "b \<le> 100" "0 \<le> c" "c \<le> 100"
  shows "run_steps (sentiment_steps L) sk = Inr sk"
  using assms
  by (simp add: sentiment_steps_def modify_def number_value_def coerce_percent_clamped
      update_triv)

lemma renormalize_clamped:
  assumes "map_of sk ''negative'' = Some (PInt a)" and "map_of sk ''neutral'' = Some (PInt b)"
    and "0 \<le> a" "a \<le> 100" "0 \<le> b" "b \<le> 100"
  shows "renormalize (PDict sk) tot =
           Inr (PDict (AList.update ''positive'' (PInt (100 - rescale a tot - rescale b tot))
                        (AList.update ''neutral'' (PInt (rescale b tot))
                           (AList.update ''negative'' (PInt (rescale a tot)) sk))))"
  using assms
  by (simp add: renormalize_def Let_def scaled_small update_conv' del: scaled.simps)

lemma repair_sentiment_clamped:
  assumes "map_of sk ''negative'' = Some (PInt a)" and "map_of sk ''neutral'' = Some (PInt b)"
    and "map_of sk ''positive'' = Some (PInt c)"
    and "0 \<le> a" "a \<le> 100" "0 \<le> b" "b \<le> 100" "0 \<le> c" "c \<le> 100"
  shows "repair_sentiment L (PDict sk) =
           Inr (PDict (if a + b + c = 0 \<or> a + b + c = 100 then sk
                 else AList.update ''positive''
                        (PInt (100 - rescale a (a + b + c) - rescale b (a + b + c)))
                        (AList.update ''neutral'' (PInt (rescale b (a + b + c)))
                           (AList.update ''negative'' (PInt (rescale a (a + b + c))) sk))))"
proof -
  have loop: "fold_err (clamp_sentiment_key L) [''negative'', ''neutral'', ''positive''] (PDict sk)
                = Inr (PDict sk)"
    unfolding clamp_loop_dict using clamp_loop_clamped [OF assms] by simp
  have tot: "0 < a + b + c \<longleftrightarrow> a + b + c \<noteq> 0" using assms by linarith
  show ?thesis
    unfolding repair_sentiment_def loop
    using assms
    by (simp add: renormalize_clamped tot)
qed


text \<open>
  C1. For a sentiment triple of clamped integers with sum \<open>s\<close>: unchanged when \<open>s\<close> is 0
  or 100, otherwise \<open>negative' = round(negative * 100 / s)\<close>,
  \<open>neutral' = round(neutral * 100 / s)\<close> and \<open>positive' = 100 - negative' - neutral'\<close>.
  As stated the two rounded values would be a function of the quotient, and they are
  not: the triples (15, 9, 0) and (5, 3, 0) have the same quotient \<open>negative * 100 / s =
  62.5\<close>, and the code gives 63 for the first (the float \<^verbatim>\<open>100 / 24\<close> lies above \<open>25/6\<close>, so
  the product is \<^verbatim>\<open>62.50000000000001\<close>) and 62 for the second (\<^verbatim>\<open>100 / 8\<close> is exact and
  the tie goes to the even integer).
\<close>

theorem same_quotient_rounded_differently:
  "repair_sentiment no_numeric_strings
     (PDict [(''negative'', PInt 15), (''neutral'', PInt 9), (''positive'', PInt 0)])
   = Inr (PDict [(''negative'', PInt 63), (''neutral'', PInt 38), (''positive'', PInt (- 1))])
   \<and> repair_sentiment no_numeric_strings
     (PDict [(''negative'', PInt 5), (''neutral'', PInt 3), (''positive'', PInt 0)])
   = Inr (PDict [(''negative'', PInt 62), (''neutral'', PInt 38), (''positive'', PInt 0)])
   \<and> (15 * 100 / 24 :: rat) = 5 * 100 / 8"
  by code_simp

text \<open>
  C1, amended. For a sentiment triple of clamped integers with sum \<open>s\<close>: unchanged when
  \<open>s\<close> is 0 or 100; otherwise \<open>negative' = round(negative * scale)\<close> and
  \<open>neutral' = round(neutral * scale)\<close>, where \<open>scale\<close> is the float \<open>100 / s\<close>, the product
  is a float and \<open>round\<close> rounds half to even, so that each is an integer within
  \<open>1/2\<close> of \<open>value * 100 / s\<close>; \<open>positive' = 100 - negative' - neutral'\<close>, and the three
  sum to exactly 100.
\<close>

theorem renormalized_triple:
  assumes "map_of sk ''negative'' = Some (PInt a)" and "map_of sk ''neutral'' = Some (PInt b)"
    and "map_of sk ''positive'' = Some (PInt c)"
    and "0 \<le> a" "a \<le> 100" "0 \<le> b" "b \<le> 100" "0 \<le> c" "c \<le> 100"
  shows "\<exists>sk'. repair_sentiment L (PDict sk) = Inr (PDict sk')
           \<and> (a + b + c = 0 \<or> a + b + c = 100 \<longrightarrow> sk' = sk)
           \<and> (a + b + c \<noteq> 0 \<and> a + b + c \<noteq> 100 \<longrightarrow>
                (\<exists>n u p. map_of sk' ''negative'' = Some (PInt n)
                   \<and> map_of sk' ''neutral'' = Some (PInt u)
                   \<and> map_of sk' ''positive'' = Some (PInt p)
                   \<and> n = rescale a (a + b + c) \<and> u = rescale b (a + b + c)
                   \<and> p = 100 - n - u \<and> n + u + p = 100
                   \<and> \<bar>of_int n - (100 * of_int a / of_int (a + b + c) :: rat)\<bar> \<le> 1 / 2
                   \<and> \<bar>of_int u - (100 * of_int b / of_int (a + b + c) :: rat)\<bar> \<le> 1 / 2))"
proof (cases "a + b + c = 0 \<or> a + b + c = 100")
  case True
  with repair_sentiment_clamped [OF assms, of L] show ?thesis by auto
next
  case False
  define s where "s = a + b + c"
  from assms False have s: "0 < s" "s \<le> 300" "a \<le> s" "b \<le> s" by (simp_all add: s_def)
  have na: "\<bar>of_int (rescale a s) - (100 * of_int a / of_int s :: rat)\<bar> \<le> 1 / 2"
    unfolding rescale_def using assms(4) s(3,1,2) by (rule rescale_nearest)
  have nb: "\<bar>of_int (rescale b s) - (100 * of_int b / of_int s :: rat)\<bar> \<le> 1 / 2"
    unfolding rescale_def using assms(6) s(4,1,2) by (rule rescale_nearest)
  define sk' where "sk' = AList.update ''positive'' (PInt (100 - rescale a s - rescale b s))
                        (AList.update ''neutral'' (PInt (rescale b s))
                           (AList.update ''negative'' (PInt (rescale a s)) sk))"
  from repair_sentiment_clamped [OF assms, of L] False
  have r: "repair_sentiment L (PDict sk) = Inr (PDict sk')" by (simp add: sk'_def s_def)
  have "map_of sk' ''negative'' = Some (PInt (rescale a s))"
    "map_of sk' ''neutral'' = Some (PInt (rescale b s))"
    "map_of sk' ''positive'' = Some (PInt (100 - rescale a s - rescale b s))"
    by (simp_all add: sk'_def update_conv')
  with r na nb False show ?thesis unfolding s_def [symmetric] by auto
qed

theorem renormalized_triple_witness:
  "repair_sentiment no_numeric_strings
     (PDict [(''negative'', PInt 50), (''neutral'', PInt 50), (''positive'', PInt 20)])
   = Inr (PDict [(''negative'', PInt 42), (''neutral'', PInt 42), (''positive'', PInt 16)])
   \<and> rescale 50 120 = 42 \<and> (42::int) + 42 + 16 = 100
   \<and> \<bar>of_int (rescale 50 120) - (100 * 50 / 120 :: rat)\<bar> \<le> 1 / 2"
proof -
  have e: "repair_sentiment no_numeric_strings
             (PDict [(''negative'', PInt 50), (''neutral'', PInt 50), (''positive'', PInt 20)])
           = Inr (PDict [(''negative'', PInt 42), (''neutral'', PInt 42), (''positive'', PInt 16)])"
    by code_simp
  from renormalized_triple [of "[(''negative'', PInt 50), (''neutral'', PInt 50), (''positive'', PInt 20)]"
      50 50 20 no_numeric_strings]
  obtain sk' where "repair_sentiment no_numeric_strings
             (PDict [(''negative'', PInt 50), (''neutral'', PInt 50), (''positive'', PInt 20)])
           = Inr (PDict sk')"
    and "map_of sk' ''negative'' = Some (PInt (rescale 50 120))"
    and "\<bar>of_int (rescale 50 120) - (100 * 50 / 120 :: rat)\<bar> \<le> 1 / 2"
    by auto
  with e show ?thesis by auto
qed

section \<open>Numeric ranges after the whole pass\<close>

text \<open>
  The sentiment triple after its repairs: \<^verbatim>\<open>negative\<close> and \<^verbatim>\<open>neutral\<close> are ints of
  \<open>[0, 100]\<close>, and \<^verbatim>\<open>positive\<close> is an int of \<open>[-1, 100]\<close>.
\<close>

lemma rescale_range:
  assumes "0 \<le> a" and "a \<le> s" and "0 < s" and "s \<le> 300"
  shows "0 \<le> rescale a s" and "rescale a s \<le> 100"
    and "of_int (rescale a s) \<le> (100 * of_int a / of_int s + 1 / 2 :: rat)"
proof -
  have n: "\<bar>of_int (rescale a s) - (100 * of_int a / of_int s :: rat)\<bar> \<le> 1 / 2"
    unfolding rescale_def using assms by (rule rescale_nearest)
  have sr: "(0::rat) < of_int s" using assms(3) by simp
  have x0: "(0::rat) \<le> 100 * of_int a / of_int s" using assms(1) sr by simp
  have x100: "(100 * of_int a / of_int s :: rat) \<le> 100"
  proof -
    have "(of_int a :: rat) \<le> of_int s" using assms(2) by simp
    with sr show ?thesis by (simp add: pos_divide_le_eq)
  qed
  from n x0 have "(- 1 :: rat) < of_int (rescale a s)" by linarith
  then have "(of_int (- 1) :: rat) < of_int (rescale a s)" by simp
  then have "- 1 < rescale a s" by (simp only: of_int_less_iff)
  then show "0 \<le> rescale a s" by simp
  from n x100 have "(of_int (rescale a s) :: rat) < 101" by linarith
  then have "(of_int (rescale a s) :: rat) < of_int 101" by simp
  then have "rescale a s < 101" by (simp only: of_int_less_iff)
  then show "rescale a s \<le> 100" by simp
  from n show "of_int (rescale a s) \<le> (100 * of_int a / of_int s + 1 / 2 :: rat)" by linarith
qed

lemma rescale_residue:
  assumes "0 \<le> a" "0 \<le> b" "0 \<le> c" "a \<le> 100" "b \<le> 100" "c \<le> 100" "0 < a + b + c"
  shows "- 1 \<le> 100 - rescale a (a + b + c) - rescale b (a + b + c)"
    and "100 - rescale a (a + b + c) - rescale b (a + b + c) \<le> 100"
proof -
  define s where "s = a + b + c"
  from assms have s: "0 < s" "s \<le> 300" "a \<le> s" "b \<le> s" "a + b \<le> s" by (simp_all add: s_def)
  have sr: "(0::rat) < of_int s" using s(1) by simp
  note ra = rescale_range [OF assms(1) s(3) s(1) s(2)]
  note rb = rescale_range [OF assms(2) s(4) s(1) s(2)]
  have "(100 * of_int a / of_int s + 100 * of_int b / of_int s :: rat) \<le> 100"
  proof -
    have "(of_int a + of_int b :: rat) \<le> of_int s"
      using s(5) by (simp only: of_int_add [symmetric] of_int_le_iff)
    then have "(of_int a + of_int b) / of_int s \<le> (1::rat)" using sr by (simp add: pos_divide_le_eq)
    then show ?thesis by (simp add: add_divide_distrib)
  qed
  with ra(3) rb(3) have "(of_int (rescale a s) + of_int (rescale b s) :: rat) \<le> 101" by linarith
  then have "(of_int (rescale a s + rescale b s) :: rat) \<le> of_int 101" by simp
  then have "rescale a s + rescale b s \<le> 101" by (simp only: of_int_le_iff)
  then show "- 1 \<le> 100 - rescale a (a + b + c) - rescale b (a + b + c)"
    by (simp add: s_def)
  from ra(1) rb(1) show "100 - rescale a (a + b + c) - rescale b (a + b + c) \<le> 100"
    by (simp add: s_def)
qed

lemma py_get_clamped:
  assumes r: "run_steps (sentiment_steps L) sk = Inr sk1"
    and k: "k \<in> {''negative'', ''neutral'', ''positive''}"
    and g: "py_get (PDict sk1) k (PInt 0) = Inr (PInt i)"
  shows "0 \<le> i \<and> i \<le> 100"
  using clamped_triple_values [OF r k] g by (auto split: option.splits)

lemma renormalize_result:
  assumes "renormalize (PDict sk1) tot = Inr s'"
    and "py_get (PDict sk1) ''negative'' (PInt 0) = Inr (PInt a)"
    and "py_get (PDict sk1) ''neutral'' (PInt 0) = Inr (PInt b)"
    and "0 \<le> a" "a \<le> 100" "0 \<le> b" "b \<le> 100"
  shows "s' = PDict (AList.update ''positive'' (PInt (100 - rescale a tot - rescale b tot))
                (AList.update ''neutral'' (PInt (rescale b tot))
                   (AList.update ''negative'' (PInt (rescale a tot)) sk1)))"
proof -
  have "py_get (PDict (AList.update ''negative'' (PInt (rescale a tot)) sk1)) ''neutral'' (PInt 0)
          = Inr (PInt b)"
    using assms(3) by (simp add: update_conv')
  with assms show ?thesis
    unfolding renormalize_def Let_def
    by (simp add: scaled_small del: scaled.simps py_get.simps)
qed

lemma py_add_int_Inr: "py_add_int x y = Inr t \<Longrightarrow> \<exists>a b. x = PInt a \<and> y = PInt b \<and> t = a + b"
  by (cases x; cases y) simp_all

lemma repair_sentiment_ranges:
  assumes rs: "repair_sentiment L (PDict sk) = Inr (PDict sk')"
    and k: "k \<in> {''negative'', ''neutral'', ''positive''}"
    and v: "map_of sk' k = Some v"
  shows "\<exists>i. v = PInt i \<and> - 1 \<le> i \<and> i \<le> 100 \<and> (k \<noteq> ''positive'' \<longrightarrow> 0 \<le> i)"
proof -
  from rs obtain sk1 a b c where loop: "run_steps (sentiment_steps L) sk = Inr sk1"
    and ga: "py_get (PDict sk1) ''negative'' (PInt 0) = Inr (PInt a)"
    and gb: "py_get (PDict sk1) ''neutral'' (PInt 0) = Inr (PInt b)"
    and gc: "py_get (PDict sk1) ''positive'' (PInt 0) = Inr (PInt c)"
    and rest: "(if a + b + c \<noteq> 100 \<and> 0 < a + b + c then renormalize (PDict sk1) (a + b + c)
                else Inr (PDict sk1)) = Inr (PDict sk')"
    unfolding repair_sentiment_def clamp_loop_dict
    by (auto simp: and_then_eq_Inr dest!: py_add_int_Inr simp del: py_get.simps)
  have ra: "0 \<le> a \<and> a \<le> 100" by (rule py_get_clamped [OF loop _ ga]) simp
  have rb: "0 \<le> b \<and> b \<le> 100" by (rule py_get_clamped [OF loop _ gb]) simp
  have rc: "0 \<le> c \<and> c \<le> 100" by (rule py_get_clamped [OF loop _ gc]) simp
  show ?thesis
  proof (cases "a + b + c \<noteq> 100 \<and> 0 < a + b + c")
    case False
    with rest have sk': "sk' = sk1" by simp
    from k have "py_get (PDict sk1) k (PInt 0) = Inr v" using v sk' by simp
    with k ga gb gc obtain i where i: "v = PInt i" by auto
    with k v sk' have "py_get (PDict sk1) k (PInt 0) = Inr (PInt i)" by simp
    from py_get_clamped [OF loop k this] i show ?thesis by simp
  next
    case True
    with rest have "renormalize (PDict sk1) (a + b + c) = Inr (PDict sk')" by simp
    from renormalize_result [OF this ga gb] ra rb
    have sk': "sk' = AList.update ''positive''
                  (PInt (100 - rescale a (a + b + c) - rescale b (a + b + c)))
                  (AList.update ''neutral'' (PInt (rescale b (a + b + c)))
                     (AList.update ''negative'' (PInt (rescale a (a + b + c))) sk1))"
      by simp
    from True ra rb rc have s: "0 < a + b + c" "a + b + c \<le> 300" "a \<le> a + b + c" "b \<le> a + b + c"
      by simp_all
    note na = rescale_range(1,2) [OF _ s(3) s(1) s(2)]
    note nb = rescale_range(1,2) [OF _ s(4) s(1) s(2)]
    note np = rescale_residue [of a b c]
    from k consider "k = ''negative''" | "k = ''neutral''" | "k = ''positive''" by auto
    then show ?thesis
    proof cases
      case 1
      with v sk' have "v = PInt (rescale a (a + b + c))" by (simp add: update_conv')
      with na ra 1 show ?thesis by simp
    next
      case 2
      with v sk' have "v = PInt (rescale b (a + b + c))" by (simp add: update_conv')
      with nb rb 2 show ?thesis by simp
    next
      case 3
      with v sk' have "v = PInt (100 - rescale a (a + b + c) - rescale b (a + b + c))"
        by (simp add: update_conv')
      with np ra rb rc True 3 show ?thesis by simp
    qed
  qed
qed

text \<open>
  The other numeric fields, when they are present and not null, are within their ranges
  whenever the pass returns a payload.
\<close>

lemma validate_pain_index_range:
  assumes v: "validate L d = Inr d'" and g: "dict_get d ''pain_index'' = Some x" and n: "x \<noteq> PNone"
  shows "\<exists>q. dict_get d' ''pain_index'' = Some (PFloat (Finite q)) \<and> 0 \<le> q \<and> q \<le> 10"
proof -
  from validate_top_fields [OF v g] n obtain x' where "coerce_pain_index L x = Inr x'"
    and "dict_get d' ''pain_index'' = Some x'"
    by (auto simp: pipeline_pain_index number_value_def)
  with coerce_pain_index_range [of L x x'] show ?thesis by auto
qed

lemma validate_star_rating_range:
  assumes v: "validate L d = Inr d'" and g: "dict_get2 d ''header'' ''star_rating'' = Some x"
    and n: "x \<noteq> PNone"
  shows "\<exists>q. dict_get2 d' ''header'' ''star_rating'' = Some (PFloat (Finite q)) \<and> 0 \<le> q \<and> q \<le> 5"
proof -
  from validate_header_fields [OF v g] n obtain x' where "coerce_star_rating L x = Inr x'"
    and "dict_get2 d' ''header'' ''star_rating'' = Some x'"
    by (auto simp: pipeline_star_rating number_value_def)
  with coerce_star_rating_range [of L x x'] show ?thesis by auto
qed

lemma validate_total_reports_range:
  assumes v: "validate L d = Inr d'" and g: "dict_get2 d ''header'' ''total_reports_24h'' = Some x"
    and n: "x \<noteq> PNone"
  shows "\<exists>i. dict_get2 d' ''header'' ''total_reports_24h'' = Some (PInt i) \<and> 0 \<le> i"
proof -
  from validate_header_fields [OF v g] n obtain x' where "coerce_count L x = Inr x'"
    and "dict_get2 d' ''header'' ''total_reports_24h'' = Some x'"
    by (auto simp: pipeline_total_reports number_value_def)
  with coerce_count_range [of L x x'] show ?thesis by auto
qed

lemma fix_problem_percent_range:
  assumes "fix_problem L p = Inr p'" and "dict_get p ''percent'' = Some x" and "x \<noteq> PNone"
  shows "\<exists>i. dict_get p' ''percent'' = Some (PInt i) \<and> 0 \<le> i \<and> i \<le> 100"
proof -
  from assms(2) obtain pk where p: "p = PDict pk" and x: "map_of pk ''percent'' = Some x"
    by (rule dict_get_SomeD)
  from assms(1) p obtain pk' where m: "modify ''percent'' (number_value (coerce_percent L)) pk = Inr pk'"
    and p': "p' = PDict pk'"
    by (auto simp: fix_problem_def fix_number_dict and_then_eq_Inr)
  from modify_result(3) [OF m x] assms(3) obtain x' where "coerce_percent L x = Inr x'"
    and "map_of pk' ''percent'' = Some x'"
    by (auto simp: number_value_def)
  with coerce_percent_range [of L x x'] p' show ?thesis by auto
qed

lemma validate_percent_range:
  assumes v: "validate L d = Inr d'"
    and g: "dict_get d ''problem_distribution'' = Some (PList items)"
  shows "\<exists>items'. dict_get d' ''problem_distribution'' = Some (PList items') \<and>
           length items' = length items \<and>
           (\<forall>i<length items. \<forall>x. dict_get (items ! i) ''percent'' = Some x \<and> x \<noteq> PNone \<longrightarrow>
              (\<exists>n. dict_get (items' ! i) ''percent'' = Some (PInt n) \<and> 0 \<le> n \<and> n \<le> 100))"
proof -
  from validate_top_fields [OF v g] obtain x'
    where "problems_value L (PList items) = Inr x'"
      and x': "dict_get d' ''problem_distribution'' = Some x'"
    by (auto simp: pipeline_problem_distribution)
  then obtain items' where m: "map_err (fix_problem L) items = Inr items'" and "x' = PList items'"
    by (auto simp: problems_value_def and_then_eq_Inr)
  with x' map_err_nth [OF m] fix_problem_percent_range show ?thesis by auto
qed

lemma fix_number_str:
  "fix_number coerce key (PStr t) = (if sublist key t then Inl TypeError else Inr (PStr t))"
  by (simp add: fix_number_def)

lemma fix_header_number_str:
  "fix_header_number coerce key (PStr t) =
     (if sublist ''header'' t then Inl TypeError else Inr (PStr t))"
  by (simp add: fix_header_number_def)

lemma fix_sentiment_str:
  "fix_sentiment L (PStr t) = (if sublist ''sentiment'' t then Inl TypeError else Inr (PStr t))"
  by (simp add: fix_sentiment_def)

lemma fix_problem_distribution_str:
  "fix_problem_distribution L (PStr t) =
     (if sublist ''problem_distribution'' t then Inl TypeError else Inr (PStr t))"
  by (simp add: fix_problem_distribution_def)

lemma truncate_field_str:
  "truncate_field key n (PStr t) = (if sublist key t then Inl TypeError else Inr (PStr t))"
  by (simp add: truncate_field_def)

lemma truncate_samples_str:
  "truncate_samples (PStr t) = (if sublist ''sentiment'' t then Inl TypeError else Inr (PStr t))"
  by (simp add: truncate_samples_def)

lemma fix_enums_str:
  "fix_enums (PStr t) = (if sublist ''header'' t then Inl TypeError else Inr (PStr t))"
  by (simp add: fix_enums_def)

lemma validate_str:
  "validate L (PStr t) =
     (if \<exists>k \<in> set guarded_keys. sublist k t then Inl TypeError else Inr (PStr t))"
  by (simp add: validate_def truncate_arrays_def fix_pain_index_def fix_star_rating_def
      fix_total_reports_def fix_number_str fix_header_number_str fix_sentiment_str
      fix_problem_distribution_str truncate_field_str truncate_samples_str fix_enums_str
      guarded_keys_def)

lemma validate_gives_dict:
  assumes "validate L d = Inr (PDict kvs')"
  shows "\<exists>kvs. d = PDict kvs"
  using assms
  by (cases d) (simp_all add: validate_scalar validate_list validate_str split: if_splits)

lemma validate_sentiment_range:
  assumes v: "validate L d = Inr d'"
    and k: "k \<in> {''negative'', ''neutral'', ''positive''}"
    and g: "dict_get2 d' ''sentiment'' k = Some x"
  shows "\<exists>i. x = PInt i \<and> - 1 \<le> i \<and> i \<le> 100 \<and> (k \<noteq> ''positive'' \<longrightarrow> 0 \<le> i)"
proof -
  from dict_get2_SomeD [OF g] obtain kvs' sk' where d': "d' = PDict kvs'"
    and h': "map_of kvs' ''sentiment'' = Some (PDict sk')" and x: "map_of sk' k = Some x" .
  from validate_gives_dict [OF v [unfolded d']] obtain kvs where d: "d = PDict kvs" ..
  from validate_fields [OF v [unfolded d]] d' have
    f: "\<forall>k v. map_of kvs k = Some v \<longrightarrow>
           (\<exists>v'. pipeline k (validate_steps L) v = Inr v' \<and> map_of kvs' k = Some v')"
    and a: "\<forall>k. map_of kvs k = None \<longrightarrow> map_of kvs' k = None"
    by auto
  from a h' obtain h where kv: "map_of kvs ''sentiment'' = Some h"
    by (cases "map_of kvs ''sentiment''") auto
  from f [rule_format, OF kv] h' have p: "pipeline ''sentiment'' (validate_steps L) h = Inr (PDict sk')"
    by auto
  then obtain s1 where r: "repair_sentiment L h = Inr s1"
    and t: "truncate_field ''samples'' 4 s1 = Inr (PDict sk')"
    by (auto simp: pipeline_sentiment and_then_eq_Inr)
  from repair_sentiment_needs_dict [OF r] obtain sk where h: "h = PDict sk" ..
  from repair_sentiment_dict [OF r [unfolded h]] obtain sk1 where s1: "s1 = PDict sk1"
    by (elim exE conjE)
  from truncate_samples_keeps [OF t [unfolded s1]]
  have others: "\<forall>k. k \<noteq> ''samples'' \<longrightarrow> map_of sk' k = map_of sk1 k" by auto
  from k have "k \<noteq> ''samples''" by auto
  with others x have "map_of sk1 k = Some x" by simp
  from repair_sentiment_ranges [OF r [unfolded h s1] k this] show ?thesis .
qed

end
